theory Spec2Isabelle
  imports Complex_Main "HOL-Library.Char_ord" "HOL-Library.List_Lexorder" "HOL-Library.Sublist"
begin

section \<open>Values read by \<open>json.load\<close>\<close>

text \<open>
  \<open>em.py\<close> works on whatever \<open>json.load\<close> returns: \<open>None\<close>, booleans, integers,
  floats, strings, lists and dicts. A dict keeps its keys in insertion order and has
  each key once, so it is an association list. A float is modelled by the rational
  number it denotes; negative zero and the non-finite values that \<open>json.load\<close> also
  accepts are outside the model.
\<close>

datatype json =
    JNull
  | JBool bool
  | JInt int
  | JFloat rat
  | JStr string
  | JArr "json list"
  | JObj "(string \<times> json) list"

text \<open>The exceptions that can escape from the script.\<close>

datatype error =
    AttributeError  \<comment> \<open>\<open>.get\<close> on a value that is not a dict\<close>
  | TypeError       \<comment> \<open>iterating or \<open>len\<close> of a non-container, hashing a list or dict\<close>
  | LoadError       \<comment> \<open>anything raised by \<open>load_json\<close>\<close>

text \<open>\<open>x.get(k, d)\<close>: only a dict has the method.\<close>

fun py_get :: "json \<Rightarrow> string \<Rightarrow> json \<Rightarrow> error + json" where
  "py_get (JObj kvs) k d = Inr (case map_of kvs k of Some v \<Rightarrow> v | None \<Rightarrow> d)"
| "py_get _ k d = Inl AttributeError"

text \<open>\<open>for x in v\<close>: a list yields its elements, a dict its keys, a string its
  characters; nothing else is iterable.\<close>

fun py_iter :: "json \<Rightarrow> error + json list" where
  "py_iter (JArr xs) = Inr xs"
| "py_iter (JObj kvs) = Inr (map (\<lambda>kv. JStr (fst kv)) kvs)"
| "py_iter (JStr s) = Inr (map (\<lambda>c. JStr [c]) s)"
| "py_iter _ = Inl TypeError"

text \<open>\<open>len(v)\<close>.\<close>

fun py_len :: "json \<Rightarrow> error + int" where
  "py_len (JArr xs) = Inr (int (length xs))"
| "py_len (JObj kvs) = Inr (int (length kvs))"
| "py_len (JStr s) = Inr (int (length s))"
| "py_len _ = Inl TypeError"

text \<open>Truth value of a value in a condition (\<open>if u_cd and t_cd and s_cd\<close>,
  \<open>if new_skills\<close>).\<close>

fun truthy :: "json \<Rightarrow> bool" where
  "truthy JNull = False"
| "truthy (JBool b) = b"
| "truthy (JInt i) = (i \<noteq> 0)"
| "truthy (JFloat r) = (r \<noteq> 0)"
| "truthy (JStr s) = (s \<noteq> [])"
| "truthy (JArr xs) = (xs \<noteq> [])"
| "truthy (JObj kvs) = (kvs \<noteq> [])"

text \<open>
  A set of tuples compares its members with \<open>==\<close> after hashing them. Lists and dicts
  are unhashable (\<open>TypeError\<close>); \<open>True == 1 == 1.0\<close> and \<open>False == 0\<close>, a string
  equals only the same string and \<open>None\<close> only \<open>None\<close>. \<open>py_key\<close> sends a hashable
  value to the class of values equal to it.
\<close>

datatype key = KNone | KNum rat | KStr string

fun py_key :: "json \<Rightarrow> key option" where
  "py_key JNull = Some KNone"
| "py_key (JBool b) = Some (KNum (if b then 1 else 0))"
| "py_key (JInt i) = Some (KNum (of_int i))"
| "py_key (JFloat r) = Some (KNum r)"
| "py_key (JStr s) = Some (KStr s)"
| "py_key (JArr xs) = None"
| "py_key (JObj kvs) = None"

type_synonym signature = "key \<times> key \<times> key"

text \<open>Hashing the tuple \<open>(u_cd, t_cd, s_cd)\<close> hashes its three components.\<close>

definition sig_key :: "json \<Rightarrow> json \<Rightarrow> json \<Rightarrow> error + signature" where
  "sig_key u_cd t_cd s_cd =
     (case (py_key u_cd, py_key t_cd, py_key s_cd) of
        (Some a, Some b, Some c) \<Rightarrow> Inr (a, b, c)
      | _ \<Rightarrow> Inl TypeError)"

text \<open>\<open>d[k] = v\<close> on a dict: an existing key keeps its place, a new key goes last.\<close>

fun dict_set :: "(string \<times> json) list \<Rightarrow> string \<Rightarrow> json \<Rightarrow> (string \<times> json) list" where
  "dict_set [] k v = [(k, v)]"
| "dict_set (kv # kvs) k v = (if fst kv = k then (k, v) # kvs else kv # dict_set kvs k v)"

text \<open>\<open>c = dict(x); c[k] = v\<close>. The script reaches it only after \<open>x.get\<close> has
  succeeded, that is for a dict.\<close>

fun copy_set :: "json \<Rightarrow> string \<Rightarrow> json \<Rightarrow> error + json" where
  "copy_set (JObj kvs) k v = Inr (JObj (dict_set kvs k v))"
| "copy_set _ k v = Inl TypeError"

section \<open>The directory\<close>

text \<open>A file is what \<open>load_json\<close> makes of it: the parsed document, or an
  exception.\<close>

datatype stored = Unparsable | Content json

type_synonym directory = "(string \<times> stored) list"

definition PHYSICS_FILENAME :: string where
  "PHYSICS_FILENAME = ''Physics_C_Electricity_and_Magnetism_TopicLookup.json''"

definition OUTPUT_FILENAME :: string where
  "OUTPUT_FILENAME = ''NEW_Physics_C_Electricity_and_Magnetism_TopicLookup.json''"

fun startswith :: "string \<Rightarrow> string \<Rightarrow> bool" where
  "startswith s [] = True"
| "startswith [] (c # p) = False"
| "startswith (x # s) (c # p) = (x = c \<and> startswith s p)"

definition endswith :: "string \<Rightarrow> string \<Rightarrow> bool" where
  "endswith s p = startswith (rev s) (rev p)"

definition exists :: "directory \<Rightarrow> string \<Rightarrow> bool" where
  "exists fs name = (map_of fs name \<noteq> None)"

text \<open>\<open>TOPIC_DIR.glob("*TopicLookup.json")\<close>: the names with that suffix.\<close>

definition glob :: "directory \<Rightarrow> string list" where
  "glob fs = filter (\<lambda>name. endswith name ''TopicLookup.json'') (map fst fs)"

definition load_json :: "directory \<Rightarrow> string \<Rightarrow> error + json" where
  "load_json fs path =
     (case map_of fs path of Some (Content data) \<Rightarrow> Inr data | _ \<Rightarrow> Inl LoadError)"

text \<open>Writing a file replaces it or creates it.\<close>

fun write_file :: "directory \<Rightarrow> string \<Rightarrow> stored \<Rightarrow> directory" where
  "write_file [] name f = [(name, f)]"
| "write_file (e # fs) name f = (if fst e = name then (name, f) # fs else e # write_file fs name f)"

section \<open>Aggregating the signatures of the other files (lines 51 to 72)\<close>

text \<open>The lines printed on the console, by what they report.\<close>

datatype msg =
    ErrorPhysicsNotFound
  | ErrorNoFiles
  | InfoFound int
  | InfoUsing int
  | InfoName string
  | WarnSkipping string
  | InfoCollected int int
  | Summary int int int int int int int
  | OutputWritten

record agg =
  seen_signatures :: "signature set"
  other_entry_count :: int
  warned :: "msg list"

text \<open>\<open>for skill in skills\<close> (lines 68 to 72).\<close>

fun seen_skills :: "json \<Rightarrow> json \<Rightarrow> json list \<Rightarrow> agg \<Rightarrow> error + agg" where
  "seen_skills u_cd t_cd [] st = Inr st"
| "seen_skills u_cd t_cd (skill # skills) st =
     (case py_get skill ''skillCd'' JNull of
        Inl e \<Rightarrow> Inl e
      | Inr s_cd \<Rightarrow>
          if truthy u_cd \<and> truthy t_cd \<and> truthy s_cd then
            (case sig_key u_cd t_cd s_cd of
               Inl e \<Rightarrow> Inl e
             | Inr sg \<Rightarrow>
                 seen_skills u_cd t_cd skills
                   (st\<lparr>seen_signatures := insert sg (seen_signatures st),
                       other_entry_count := other_entry_count st + 1\<rparr>))
          else seen_skills u_cd t_cd skills st)"

text \<open>\<open>for topic in topics\<close> (lines 65 to 72).\<close>

fun seen_topics :: "json \<Rightarrow> json list \<Rightarrow> agg \<Rightarrow> error + agg" where
  "seen_topics u_cd [] st = Inr st"
| "seen_topics u_cd (topic # topics) st =
     (case py_get topic ''topicCd'' JNull of
        Inl e \<Rightarrow> Inl e
      | Inr t_cd \<Rightarrow>
          (case py_get topic ''skills'' (JArr []) of
             Inl e \<Rightarrow> Inl e
           | Inr skills \<Rightarrow>
               (case py_iter skills of
                  Inl e \<Rightarrow> Inl e
                | Inr ss \<Rightarrow>
                    (case seen_skills u_cd t_cd ss st of
                       Inl e \<Rightarrow> Inl e
                     | Inr st' \<Rightarrow> seen_topics u_cd topics st'))))"

text \<open>\<open>for unit in units\<close> (lines 62 to 72).\<close>

fun seen_units :: "json list \<Rightarrow> agg \<Rightarrow> error + agg" where
  "seen_units [] st = Inr st"
| "seen_units (unit # units) st =
     (case py_get unit ''unitCd'' JNull of
        Inl e \<Rightarrow> Inl e
      | Inr u_cd \<Rightarrow>
          (case py_get unit ''topics'' (JArr []) of
             Inl e \<Rightarrow> Inl e
           | Inr topics \<Rightarrow>
               (case py_iter topics of
                  Inl e \<Rightarrow> Inl e
                | Inr ts \<Rightarrow>
                    (case seen_topics u_cd ts st of
                       Inl e \<Rightarrow> Inl e
                     | Inr st' \<Rightarrow> seen_units units st'))))"

text \<open>\<open>data.get("lookupData", {}).get("units", [])\<close> (lines 61 and 79).\<close>

definition units_of :: "json \<Rightarrow> error + json" where
  "units_of data =
     (case py_get data ''lookupData'' (JObj []) of
        Inl e \<Rightarrow> Inl e
      | Inr ld \<Rightarrow> py_get ld ''units'' (JArr []))"

text \<open>The body of \<open>for path in other_files\<close> after a successful load (lines 61 to 72).\<close>

definition seen_data :: "json \<Rightarrow> agg \<Rightarrow> error + agg" where
  "seen_data data st =
     (case units_of data of
        Inl e \<Rightarrow> Inl e
      | Inr units \<Rightarrow>
          (case py_iter units of
             Inl e \<Rightarrow> Inl e
           | Inr us \<Rightarrow> seen_units us st))"

text \<open>
  \<open>for path in other_files\<close> (lines 54 to 72). Only \<open>load_json\<close> is inside the
  \<open>try\<close>: its failure prints a warning and the loop goes on; an exception of the
  traversal escapes, and the result then holds the state in which it was raised.
\<close>

fun seen_files :: "directory \<Rightarrow> string list \<Rightarrow> agg \<Rightarrow> error option \<times> agg" where
  "seen_files fs [] st = (None, st)"
| "seen_files fs (path # paths) st =
     (case load_json fs path of
        Inl e \<Rightarrow> seen_files fs paths (st\<lparr>warned := warned st @ [WarnSkipping path]\<rparr>)
      | Inr data \<Rightarrow>
          (case seen_data data st of
             Inl e \<Rightarrow> (Some e, st)
           | Inr st' \<Rightarrow> seen_files fs paths st'))"

section \<open>Filtering the base file (lines 77 to 120)\<close>

record counts =
  removed_skills :: int
  original_topics_count :: int
  original_skills_count :: int

text \<open>\<open>for skill in skills\<close> (lines 101 to 108), from the current \<open>new_skills\<close>.\<close>

fun filter_skills ::
  "signature set \<Rightarrow> json \<Rightarrow> json \<Rightarrow> json list \<Rightarrow> json list \<times> counts \<Rightarrow> error + json list \<times> counts" where
  "filter_skills seen u_cd t_cd [] (new_skills, c) = Inr (new_skills, c)"
| "filter_skills seen u_cd t_cd (skill # skills) (new_skills, c) =
     (case py_get skill ''skillCd'' JNull of
        Inl e \<Rightarrow> Inl e
      | Inr s_cd \<Rightarrow>
          (case sig_key u_cd t_cd s_cd of
             Inl e \<Rightarrow> Inl e
           | Inr sg \<Rightarrow>
               if sg \<in> seen then
                 filter_skills seen u_cd t_cd skills
                   (new_skills, c\<lparr>removed_skills := removed_skills c + 1\<rparr>)
               else filter_skills seen u_cd t_cd skills (new_skills @ [skill], c)))"

text \<open>\<open>for topic in topics\<close> (lines 95 to 114), from the current \<open>new_topics\<close>.\<close>

fun filter_topics ::
  "signature set \<Rightarrow> json \<Rightarrow> json list \<Rightarrow> json list \<times> counts \<Rightarrow> error + json list \<times> counts" where
  "filter_topics seen u_cd [] (new_topics, c) = Inr (new_topics, c)"
| "filter_topics seen u_cd (topic # topics) (new_topics, c) =
     (case py_get topic ''topicCd'' JNull of
        Inl e \<Rightarrow> Inl e
      | Inr t_cd \<Rightarrow>
          (case py_get topic ''skills'' (JArr []) of
             Inl e \<Rightarrow> Inl e
           | Inr skills \<Rightarrow>
               (case py_len skills of
                  Inl e \<Rightarrow> Inl e
                | Inr n \<Rightarrow>
                    (case py_iter skills of
                       Inl e \<Rightarrow> Inl e
                     | Inr ss \<Rightarrow>
                         (case filter_skills seen u_cd t_cd ss
                                 ([], c\<lparr>original_skills_count := original_skills_count c + n\<rparr>) of
                            Inl e \<Rightarrow> Inl e
                          | Inr (new_skills, c') \<Rightarrow>
                              if new_skills \<noteq> [] then
                                (case copy_set topic ''skills'' (JArr new_skills) of
                                   Inl e \<Rightarrow> Inl e
                                 | Inr topic_copy \<Rightarrow>
                                     filter_topics seen u_cd topics (new_topics @ [topic_copy], c'))
                              else filter_topics seen u_cd topics (new_topics, c'))))))"

text \<open>\<open>for unit in physics_units\<close> (lines 89 to 120), from the current \<open>new_units\<close>.\<close>

fun filter_units ::
  "signature set \<Rightarrow> json list \<Rightarrow> json list \<times> counts \<Rightarrow> error + json list \<times> counts" where
  "filter_units seen [] (new_units, c) = Inr (new_units, c)"
| "filter_units seen (unit # units) (new_units, c) =
     (case py_get unit ''unitCd'' JNull of
        Inl e \<Rightarrow> Inl e
      | Inr u_cd \<Rightarrow>
          (case py_get unit ''topics'' (JArr []) of
             Inl e \<Rightarrow> Inl e
           | Inr topics \<Rightarrow>
               (case py_len topics of
                  Inl e \<Rightarrow> Inl e
                | Inr n \<Rightarrow>
                    (case py_iter topics of
                       Inl e \<Rightarrow> Inl e
                     | Inr ts \<Rightarrow>
                         (case filter_topics seen u_cd ts
                                 ([], c\<lparr>original_topics_count := original_topics_count c + n\<rparr>) of
                            Inl e \<Rightarrow> Inl e
                          | Inr (new_topics, c') \<Rightarrow>
                              if new_topics \<noteq> [] then
                                (case copy_set unit ''topics'' (JArr new_topics) of
                                   Inl e \<Rightarrow> Inl e
                                 | Inr unit_copy \<Rightarrow>
                                     filter_units seen units (new_units @ [unit_copy], c'))
                              else filter_units seen units (new_units, c'))))))"

text \<open>Lines 78 to 120 on a loaded base document: the new units, the counters, and
  \<open>original_units_count\<close>.\<close>

definition filter_physics :: "signature set \<Rightarrow> json \<Rightarrow> error + (json list \<times> counts) \<times> int" where
  "filter_physics seen physics_data =
     (case units_of physics_data of
        Inl e \<Rightarrow> Inl e
      | Inr physics_units \<Rightarrow>
          (case py_len physics_units of
             Inl e \<Rightarrow> Inl e
           | Inr original_units_count \<Rightarrow>
               (case py_iter physics_units of
                  Inl e \<Rightarrow> Inl e
                | Inr us \<Rightarrow>
                    (case filter_units seen us
                            ([], \<lparr>removed_skills = 0, original_topics_count = 0,
                                  original_skills_count = 0\<rparr>) of
                       Inl e \<Rightarrow> Inl e
                     | Inr r \<Rightarrow> Inr (r, original_units_count)))))"

text \<open>Line 123: the document that is written.\<close>

definition new_data :: "json list \<Rightarrow> json" where
  "new_data new_units = JObj [(''lookupData'', JObj [(''units'', JArr new_units)])]"

section \<open>The statistics (lines 135 to 140)\<close>

text \<open>\<open>sum(len(u.get("topics", [])) for u in new_units)\<close>.\<close>

fun count_topics :: "json list \<Rightarrow> int \<Rightarrow> error + int" where
  "count_topics [] acc = Inr acc"
| "count_topics (u # us) acc =
     (case py_get u ''topics'' (JArr []) of
        Inl e \<Rightarrow> Inl e
      | Inr topics \<Rightarrow>
          (case py_len topics of
             Inl e \<Rightarrow> Inl e
           | Inr n \<Rightarrow> count_topics us (acc + n)))"

text \<open>The inner generator \<open>for t in u.get("topics", [])\<close> of the skills sum.\<close>

fun count_skills_of :: "json list \<Rightarrow> int \<Rightarrow> error + int" where
  "count_skills_of [] acc = Inr acc"
| "count_skills_of (t # ts) acc =
     (case py_get t ''skills'' (JArr []) of
        Inl e \<Rightarrow> Inl e
      | Inr skills \<Rightarrow>
          (case py_len skills of
             Inl e \<Rightarrow> Inl e
           | Inr n \<Rightarrow> count_skills_of ts (acc + n)))"

fun count_skills :: "json list \<Rightarrow> int \<Rightarrow> error + int" where
  "count_skills [] acc = Inr acc"
| "count_skills (u # us) acc =
     (case py_get u ''topics'' (JArr []) of
        Inl e \<Rightarrow> Inl e
      | Inr topics \<Rightarrow>
          (case py_iter topics of
             Inl e \<Rightarrow> Inl e
           | Inr ts \<Rightarrow>
               (case count_skills_of ts acc of
                  Inl e \<Rightarrow> Inl e
                | Inr acc' \<Rightarrow> count_skills us acc')))"

section \<open>\<open>main\<close>\<close>

text \<open>A run: what was printed, the exception that ended it if one did, and the
  directory it leaves.\<close>

record run =
  console :: "msg list"
  raised :: "error option"
  files :: directory

text \<open>Line 45.\<close>

definition other_files :: "string list \<Rightarrow> string list" where
  "other_files all_files =
     filter (\<lambda>p. p \<noteq> PHYSICS_FILENAME \<and> \<not> startswith p ''NEW_'') all_files"

text \<open>Lines 77 to 148, with the console so far and the aggregated set.\<close>

definition dedupe :: "directory \<Rightarrow> msg list \<Rightarrow> signature set \<Rightarrow> run" where
  "dedupe fs out seen =
     (case load_json fs PHYSICS_FILENAME of
        Inl e \<Rightarrow> \<lparr>console = out, raised = Some e, files = fs\<rparr>
      | Inr physics_data \<Rightarrow>
          (case filter_physics seen physics_data of
             Inl e \<Rightarrow> \<lparr>console = out, raised = Some e, files = fs\<rparr>
           | Inr ((new_units, c), original_units_count) \<Rightarrow>
               let fs' = write_file fs OUTPUT_FILENAME (Content (new_data new_units)) in
               (case count_topics new_units 0 of
                  Inl e \<Rightarrow> \<lparr>console = out, raised = Some e, files = fs'\<rparr>
                | Inr new_topics_count \<Rightarrow>
                    (case count_skills new_units 0 of
                       Inl e \<Rightarrow> \<lparr>console = out, raised = Some e, files = fs'\<rparr>
                     | Inr new_skills_count \<Rightarrow>
                         \<lparr>console = out @
                            [Summary original_units_count (int (length new_units))
                               (original_topics_count c) new_topics_count
                               (original_skills_count c) new_skills_count
                               (removed_skills c),
                             OutputWritten],
                          raised = None, files = fs'\<rparr>))))"

definition main :: "directory \<Rightarrow> run" where
  "main fs =
     (if \<not> exists fs PHYSICS_FILENAME then
        \<lparr>console = [ErrorPhysicsNotFound], raised = None, files = fs\<rparr>
      else
        let all_files = sort (glob fs) in
        if all_files = [] then
          \<lparr>console = [ErrorNoFiles], raised = None, files = fs\<rparr>
        else
          let others = other_files all_files;
              out = [InfoFound (int (length all_files)), InfoUsing (int (length others))]
                    @ map InfoName others
          in (case seen_files fs others
                     \<lparr>seen_signatures = {}, other_entry_count = 0, warned = []\<rparr> of
                (Some e, st) \<Rightarrow> \<lparr>console = out @ warned st, raised = Some e, files = fs\<rparr>
              | (None, st) \<Rightarrow>
                  dedupe fs
                    (out @ warned st @
                     [InfoCollected (other_entry_count st) (int (card (seen_signatures st)))])
                    (seen_signatures st)))"

section \<open>Reading a document\<close>

text \<open>
  The properties speak of the units, topics and skills of a document and of the codes
  of a skill. These are read along \<open>lookupData.units[*].topics[*].skills[*]\<close> with
  the same defaults as the script; where the script would raise, there is nothing to
  read.
\<close>

definition field :: "json \<Rightarrow> string \<Rightarrow> json \<Rightarrow> json" where
  "field x k d = (case py_get x k d of Inr v \<Rightarrow> v | Inl e \<Rightarrow> d)"

definition elems :: "json \<Rightarrow> json list" where
  "elems v = (case py_iter v of Inr xs \<Rightarrow> xs | Inl e \<Rightarrow> [])"

definition doc_units :: "json \<Rightarrow> json list" where
  "doc_units data = elems (field (field data ''lookupData'' (JObj [])) ''units'' (JArr []))"

definition unit_topics :: "json \<Rightarrow> json list" where
  "unit_topics unit = elems (field unit ''topics'' (JArr []))"

definition topic_skills :: "json \<Rightarrow> json list" where
  "topic_skills topic = elems (field topic ''skills'' (JArr []))"

text \<open>An entry is a skill together with the codes of the unit and the topic it
  stands in.\<close>

type_synonym entry = "json \<times> json \<times> json"

definition topic_entries :: "json \<Rightarrow> json \<Rightarrow> entry list" where
  "topic_entries u_cd topic =
     map (\<lambda>skill. (u_cd, field topic ''topicCd'' JNull, skill)) (topic_skills topic)"

definition unit_entries :: "json \<Rightarrow> entry list" where
  "unit_entries unit =
     concat (map (topic_entries (field unit ''unitCd'' JNull)) (unit_topics unit))"

definition entries :: "json list \<Rightarrow> entry list" where
  "entries units = concat (map unit_entries units)"

definition doc_skills :: "json \<Rightarrow> entry list" where
  "doc_skills data = entries (doc_units data)"

text \<open>The signature of an entry, as the set sees it, and whether all three codes
  are present and non-empty.\<close>

fun entry_sig :: "entry \<Rightarrow> error + signature" where
  "entry_sig (u_cd, t_cd, skill) = sig_key u_cd t_cd (field skill ''skillCd'' JNull)"

fun valid_entry :: "entry \<Rightarrow> bool" where
  "valid_entry (u_cd, t_cd, skill) =
     (truthy u_cd \<and> truthy t_cd \<and> truthy (field skill ''skillCd'' JNull))"

definition duplicate :: "signature set \<Rightarrow> entry \<Rightarrow> bool" where
  "duplicate seen e = (case entry_sig e of Inr sg \<Rightarrow> sg \<in> seen | Inl err \<Rightarrow> False)"

text \<open>The valid signatures of a list of entries and of a document.\<close>

definition entry_sigs :: "entry list \<Rightarrow> signature set" where
  "entry_sigs es = {sg. \<exists>e \<in> set es. valid_entry e \<and> entry_sig e = Inr sg}"

definition valid_sigs :: "json \<Rightarrow> signature set" where
  "valid_sigs data = entry_sigs (doc_skills data)"

text \<open>The signatures of the files of a list that load.\<close>

definition loaded_sigs :: "directory \<Rightarrow> string list \<Rightarrow> signature set" where
  "loaded_sigs fs paths =
     (\<Union>p \<in> set paths. case load_json fs p of Inr data \<Rightarrow> valid_sigs data | Inl e \<Rightarrow> {})"

section \<open>The filter as the specification words it\<close>

text \<open>
  A skill is dropped when its signature matches an aggregated one, a topic when no skill
  of it is retained, a unit when no topic of it is retained; a kept topic or unit is
  the original with its \<open>skills\<close> or \<open>topics\<close> field replaced.
\<close>

definition with_field :: "json \<Rightarrow> string \<Rightarrow> json \<Rightarrow> json" where
  "with_field x k v = (case x of JObj kvs \<Rightarrow> JObj (dict_set kvs k v) | _ \<Rightarrow> x)"

definition kept_skills :: "signature set \<Rightarrow> json \<Rightarrow> json \<Rightarrow> json list" where
  "kept_skills seen u_cd topic =
     filter (\<lambda>skill. \<not> duplicate seen (u_cd, field topic ''topicCd'' JNull, skill))
       (topic_skills topic)"

definition kept_topics :: "signature set \<Rightarrow> json \<Rightarrow> json list" where
  "kept_topics seen unit =
     map (\<lambda>topic. with_field topic ''skills''
                    (JArr (kept_skills seen (field unit ''unitCd'' JNull) topic)))
       (filter (\<lambda>topic. kept_skills seen (field unit ''unitCd'' JNull) topic \<noteq> [])
          (unit_topics unit))"

definition kept_units :: "signature set \<Rightarrow> json list \<Rightarrow> json list" where
  "kept_units seen units =
     map (\<lambda>unit. with_field unit ''topics'' (JArr (kept_topics seen unit)))
       (filter (\<lambda>unit. kept_topics seen unit \<noteq> []) units)"

text \<open>The inputs on which the loops of the filter raise nothing.\<close>

fun is_dict :: "json \<Rightarrow> bool" where
  "is_dict (JObj kvs) = True"
| "is_dict _ = False"

definition ok_skill :: "json \<Rightarrow> json \<Rightarrow> json \<Rightarrow> bool" where
  "ok_skill u_cd t_cd skill = (is_dict skill \<and> \<not> isl (entry_sig (u_cd, t_cd, skill)))"

definition ok_topic :: "json \<Rightarrow> json \<Rightarrow> bool" where
  "ok_topic u_cd topic =
     (is_dict topic \<and> \<not> isl (py_iter (field topic ''skills'' (JArr []))) \<and>
      (\<forall>skill \<in> set (topic_skills topic). ok_skill u_cd (field topic ''topicCd'' JNull) skill))"

definition ok_unit :: "json \<Rightarrow> bool" where
  "ok_unit unit =
     (is_dict unit \<and> \<not> isl (py_iter (field unit ''topics'' (JArr []))) \<and>
      (\<forall>topic \<in> set (unit_topics unit). ok_topic (field unit ''unitCd'' JNull) topic))"

text \<open>The base document as a whole.\<close>

definition ok_doc :: "json \<Rightarrow> bool" where
  "ok_doc data =
     (is_dict data \<and> is_dict (field data ''lookupData'' (JObj [])) \<and>
      \<not> isl (py_iter (field (field data ''lookupData'' (JObj [])) ''units'' (JArr []))) \<and>
      (\<forall>u \<in> set (doc_units data). ok_unit u))"

section \<open>What a kept unit or topic keeps\<close>

text \<open>Two dicts with the same keys in the same order and the same value under every
  key but \<open>k\<close>.\<close>

fun same_fields :: "string \<Rightarrow> (string \<times> json) list \<Rightarrow> (string \<times> json) list \<Rightarrow> bool" where
  "same_fields k [] [] = True"
| "same_fields k (a # as) (b # bs) =
     (fst a = fst b \<and> (fst a \<noteq> k \<longrightarrow> snd a = snd b) \<and> same_fields k as bs)"
| "same_fields k _ _ = False"

fun same_but :: "string \<Rightarrow> json \<Rightarrow> json \<Rightarrow> bool" where
  "same_but k (JObj a) (JObj b) = same_fields k a b"
| "same_but k _ _ = False"

text \<open>An output topic comes from a base topic: all fields but \<open>skills\<close> as they were,
  and its skills a subsequence of the base topic's skills. Likewise for units.\<close>

definition topic_from :: "json \<Rightarrow> json \<Rightarrow> bool" where
  "topic_from topic' topic =
     (same_but ''skills'' topic topic' \<and> subseq (topic_skills topic') (topic_skills topic))"

definition unit_from :: "json \<Rightarrow> json \<Rightarrow> bool" where
  "unit_from unit' unit =
     (same_but ''topics'' unit unit' \<and> list_emb topic_from (unit_topics unit') (unit_topics unit))"

section \<open>Example directories\<close>

definition skill1 :: json where "skill1 = JObj [(''skillCd'', JStr ''S1''), (''name'', JStr ''a'')]"
definition skill2 :: json where "skill2 = JObj [(''skillCd'', JStr ''S2'')]"
definition skill2b :: json where "skill2b = JObj [(''skillCd'', JStr ''S2''), (''n'', JInt 2)]"

definition topic1 :: json where
  "topic1 = JObj [(''topicCd'', JStr ''T1''), (''skills'', JArr [skill1, skill2, skill2b]),
                  (''title'', JStr ''t1'')]"

definition topic2 :: json where
  "topic2 = JObj [(''skills'', JArr [skill1]), (''topicCd'', JStr ''T2'')]"

definition topic9 :: json where
  "topic9 = JObj [(''topicCd'', JStr ''T9''), (''skills'', JArr [skill1])]"

definition unit1 :: json where
  "unit1 = JObj [(''unitCd'', JStr ''U1''), (''topics'', JArr [topic1, topic2]), (''w'', JInt 3)]"

text \<open>A unit with no \<open>unitCd\<close>.\<close>

definition unit9 :: json where
  "unit9 = JObj [(''topics'', JArr [topic9])]"

definition base1 :: json where
  "base1 = JObj [(''meta'', JInt 1), (''lookupData'', JObj [(''units'', JArr [unit1, unit9])])]"

text \<open>Another subject with the signatures \<open>(U1, T1, S1)\<close> and \<open>(U1, T2, S1)\<close>.\<close>

definition other1 :: json where
  "other1 = JObj [(''lookupData'', JObj [(''units'', JArr
     [JObj [(''unitCd'', JStr ''U1''), (''topics'', JArr
        [JObj [(''topicCd'', JStr ''T1''), (''skills'', JArr [JObj [(''skillCd'', JStr ''S1'')]])],
         JObj [(''topicCd'', JStr ''T2''), (''skills'', JArr [JObj [(''skillCd'', JStr ''S1'')]])]])]])])]"

definition fs1 :: directory where
  "fs1 = [(PHYSICS_FILENAME, Content base1),
          (''Biology_TopicLookup.json'', Content other1),
          (''Broken_TopicLookup.json'', Unparsable),
          (''notes.txt'', Unparsable)]"

text \<open>What the filter leaves of \<open>base1\<close> against \<open>other1\<close>.\<close>

definition units1_out :: "json list" where
  "units1_out =
     [JObj [(''unitCd'', JStr ''U1''),
            (''topics'', JArr [JObj [(''topicCd'', JStr ''T1''), (''skills'', JArr [skill2, skill2b]),
                                     (''title'', JStr ''t1'')]]),
            (''w'', JInt 3)],
      unit9]"

text \<open>The base file alone.\<close>

definition fs2 :: directory where
  "fs2 = [(PHYSICS_FILENAME, Content base1)]"

text \<open>A base file with a unit that has no topics, alone.\<close>

definition unit3 :: json where
  "unit3 = JObj [(''unitCd'', JStr ''U3''), (''topics'', JArr [])]"

definition base3 :: json where
  "base3 = JObj [(''lookupData'', JObj [(''units'', JArr [unit3])])]"

definition fs3 :: directory where
  "fs3 = [(PHYSICS_FILENAME, Content base3)]"

text \<open>A directory without the base file, and one whose base file does not parse.\<close>

definition fs4 :: directory where
  "fs4 = [(''Biology_TopicLookup.json'', Content other1)]"

definition fs5 :: directory where
  "fs5 = [(''Biology_TopicLookup.json'', Content other1), (PHYSICS_FILENAME, Unparsable)]"

section \<open>The aggregation loop computes the valid signatures of the loaded files\<close>

lemma py_get_field: "py_get x k d = Inr v \<Longrightarrow> field x k d = v"
  by (simp add: field_def)

lemma py_iter_elems: "py_iter v = Inr xs \<Longrightarrow> elems v = xs"
  by (simp add: elems_def)

lemma entry_sigs_Nil: "entry_sigs [] = {}"
  by (simp add: entry_sigs_def)

lemma entry_sigs_append: "entry_sigs (xs @ ys) = entry_sigs xs \<union> entry_sigs ys"
  by (auto simp: entry_sigs_def)

lemma entry_sigs_Cons:
  "entry_sigs (e # es) =
     (if valid_entry e then (case entry_sig e of Inr sg \<Rightarrow> {sg} | Inl err \<Rightarrow> {}) else {})
     \<union> entry_sigs es"
  by (auto simp: entry_sigs_def split: sum.splits)

lemma seen_skills_Inr:
  "seen_skills u_cd t_cd ss st = Inr st' \<Longrightarrow>
     seen_signatures st' = seen_signatures st \<union> entry_sigs (map (\<lambda>s. (u_cd, t_cd, s)) ss)
     \<and> warned st' = warned st
     \<and> other_entry_count st' =
         other_entry_count st + int (length (filter valid_entry (map (\<lambda>s. (u_cd, t_cd, s)) ss)))"
proof (induction ss arbitrary: st)
  case Nil
  then show ?case by (simp add: entry_sigs_Nil)
next
  case (Cons s ss)
  show ?case
  proof (cases "py_get s ''skillCd'' JNull")
    case (Inl e)
    with Cons.prems show ?thesis by simp
  next
    case (Inr s_cd)
    then have f: "field s ''skillCd'' JNull = s_cd" by (rule py_get_field)
    show ?thesis
    proof (cases "truthy u_cd \<and> truthy t_cd \<and> truthy s_cd")
      case False
      with Cons.prems Inr have "seen_skills u_cd t_cd ss st = Inr st'" by simp
      from Cons.IH [OF this] False f show ?thesis by (auto simp: entry_sigs_Cons)
    next
      case True
      show ?thesis
      proof (cases "sig_key u_cd t_cd s_cd")
        case (Inl e)
        with Cons.prems Inr True show ?thesis by simp
      next
        case sg: (Inr sg)
        let ?st = "st\<lparr>seen_signatures := insert sg (seen_signatures st),
                       other_entry_count := other_entry_count st + 1\<rparr>"
        from Cons.prems Inr True sg have "seen_skills u_cd t_cd ss ?st = Inr st'" by simp
        from Cons.IH [OF this] True f sg show ?thesis by (auto simp: entry_sigs_Cons)
      qed
    qed
  qed
qed

lemma seen_topics_Inr:
  "seen_topics u_cd ts st = Inr st' \<Longrightarrow>
     seen_signatures st' = seen_signatures st \<union> entry_sigs (concat (map (topic_entries u_cd) ts))
     \<and> warned st' = warned st
     \<and> other_entry_count st' =
         other_entry_count st + int (length (filter valid_entry (concat (map (topic_entries u_cd) ts))))"
proof (induction ts arbitrary: st)
  case Nil
  then show ?case by (simp add: entry_sigs_Nil)
next
  case (Cons t ts)
  from Cons.prems obtain t_cd skills ss st1 where
    g1: "py_get t ''topicCd'' JNull = Inr t_cd" and
    g2: "py_get t ''skills'' (JArr []) = Inr skills" and
    g3: "py_iter skills = Inr ss" and
    g4: "seen_skills u_cd t_cd ss st = Inr st1" and
    g5: "seen_topics u_cd ts st1 = Inr st'"
    by (auto split: sum.splits)
  have te: "topic_entries u_cd t = map (\<lambda>s. (u_cd, t_cd, s)) ss"
    using g1 g2 g3 by (simp add: topic_entries_def topic_skills_def py_get_field py_iter_elems)
  from seen_skills_Inr [OF g4] Cons.IH [OF g5] te show ?case
    by (auto simp: entry_sigs_append)
qed

lemma seen_units_Inr:
  "seen_units us st = Inr st' \<Longrightarrow>
     seen_signatures st' = seen_signatures st \<union> entry_sigs (entries us)
     \<and> warned st' = warned st
     \<and> other_entry_count st' = other_entry_count st + int (length (filter valid_entry (entries us)))"
proof (induction us arbitrary: st)
  case Nil
  then show ?case by (simp add: entry_sigs_Nil entries_def)
next
  case (Cons u us)
  from Cons.prems obtain u_cd topics ts st1 where
    g1: "py_get u ''unitCd'' JNull = Inr u_cd" and
    g2: "py_get u ''topics'' (JArr []) = Inr topics" and
    g3: "py_iter topics = Inr ts" and
    g4: "seen_topics u_cd ts st = Inr st1" and
    g5: "seen_units us st1 = Inr st'"
    by (auto split: sum.splits)
  have ue: "unit_entries u = concat (map (topic_entries u_cd) ts)"
    using g1 g2 g3 by (simp add: unit_entries_def unit_topics_def py_get_field py_iter_elems)
  from seen_topics_Inr [OF g4] Cons.IH [OF g5] ue show ?case
    by (auto simp: entry_sigs_append entries_def)
qed

lemma units_of_doc_units: "units_of data = Inr units \<Longrightarrow> py_iter units = Inr us \<Longrightarrow> doc_units data = us"
  by (auto simp: units_of_def doc_units_def py_get_field py_iter_elems split: sum.splits)

lemma seen_data_Inr:
  "seen_data data st = Inr st' \<Longrightarrow>
     seen_signatures st' = seen_signatures st \<union> valid_sigs data
     \<and> warned st' = warned st
     \<and> other_entry_count st' = other_entry_count st + int (length (filter valid_entry (doc_skills data)))"
proof -
  assume a: "seen_data data st = Inr st'"
  then obtain units us where g1: "units_of data = Inr units" and g2: "py_iter units = Inr us"
    and g3: "seen_units us st = Inr st'"
    by (auto simp: seen_data_def split: sum.splits)
  from units_of_doc_units [OF g1 g2] seen_units_Inr [OF g3] show ?thesis
    by (simp add: valid_sigs_def doc_skills_def)
qed

lemma seen_files_None:
  "seen_files fs paths st = (None, st') \<Longrightarrow>
     seen_signatures st' = seen_signatures st \<union> loaded_sigs fs paths
     \<and> warned st' = warned st @ map WarnSkipping (filter (\<lambda>p. load_json fs p = Inl LoadError) paths)"
proof (induction paths arbitrary: st)
  case Nil
  then show ?case by (simp add: loaded_sigs_def)
next
  case (Cons p ps)
  show ?case
  proof (cases "load_json fs p")
    case (Inl e)
    then have e: "e = LoadError" by (auto simp: load_json_def split: option.splits stored.splits)
    from Cons.prems Inl
    have "seen_files fs ps (st\<lparr>warned := warned st @ [WarnSkipping p]\<rparr>) = (None, st')" by simp
    from Cons.IH [OF this] Inl e show ?thesis by (simp add: loaded_sigs_def)
  next
    case (Inr data)
    with Cons.prems obtain st1 where g1: "seen_data data st = Inr st1"
      and g2: "seen_files fs ps st1 = (None, st')"
      by (auto split: sum.splits)
    from seen_data_Inr [OF g1] Cons.IH [OF g2] Inr show ?thesis
      by (auto simp: loaded_sigs_def)
  qed
qed

section \<open>The filter loops compute the filter of the specification\<close>

lemma py_get_is_dict: "(\<exists>v. py_get x k d = Inr v) = is_dict x"
  by (cases x) auto

lemma py_get_dict: "is_dict x \<Longrightarrow> py_get x k d = Inr (field x k d)"
  by (cases x) (auto simp: field_def)

lemma py_get_Inr_iff: "py_get x k d = Inr v \<longleftrightarrow> is_dict x \<and> v = field x k d"
  by (cases x) (auto simp: field_def)

lemma py_len_iter: "py_len v = Inr n \<longleftrightarrow> (\<not> isl (py_iter v) \<and> n = int (length (elems v)))"
  by (cases v) (auto simp: elems_def)

lemma py_iter_Inr_iff: "py_iter v = Inr xs \<longleftrightarrow> (\<not> isl (py_iter v) \<and> xs = elems v)"
  by (cases v) (auto simp: elems_def)

lemma filter_skills_iff:
  "filter_skills seen u_cd t_cd ss (acc, c) = Inr (acc', c') \<longleftrightarrow>
     (\<forall>s \<in> set ss. ok_skill u_cd t_cd s) \<and>
     acc' = acc @ filter (\<lambda>s. \<not> duplicate seen (u_cd, t_cd, s)) ss \<and>
     c' = c\<lparr>removed_skills := removed_skills c
             + int (length (filter (\<lambda>s. duplicate seen (u_cd, t_cd, s)) ss))\<rparr>"
proof (induction ss arbitrary: acc c)
  case Nil
  then show ?case by auto
next
  case (Cons s ss)
  show ?case
  proof (cases "ok_skill u_cd t_cd s")
    case False
    then have "\<exists>e. filter_skills seen u_cd t_cd (s # ss) (acc, c) = Inl e"
      by (cases s) (auto simp: ok_skill_def field_def split: sum.splits)
    with False show ?thesis by auto
  next
    case True
    then obtain sg where d: "is_dict s" and sg: "entry_sig (u_cd, t_cd, s) = Inr sg"
      by (cases "entry_sig (u_cd, t_cd, s)") (auto simp: ok_skill_def)
    from d have g: "py_get s ''skillCd'' JNull = Inr (field s ''skillCd'' JNull)"
      by (rule py_get_dict)
    from sg have k: "sig_key u_cd t_cd (field s ''skillCd'' JNull) = Inr sg" by simp
    show ?thesis
    proof (cases "sg \<in> seen")
      case True
      then have dup: "duplicate seen (u_cd, t_cd, s)" using sg by (simp add: duplicate_def)
      have "filter_skills seen u_cd t_cd (s # ss) (acc, c) =
            filter_skills seen u_cd t_cd ss (acc, c\<lparr>removed_skills := removed_skills c + 1\<rparr>)"
        using g k True by simp
      then show ?thesis using Cons.IH \<open>ok_skill u_cd t_cd s\<close> dup by auto
    next
      case False
      then have dup: "\<not> duplicate seen (u_cd, t_cd, s)" using sg by (simp add: duplicate_def)
      have "filter_skills seen u_cd t_cd (s # ss) (acc, c) =
            filter_skills seen u_cd t_cd ss (acc @ [s], c)"
        using g k False by simp
      then show ?thesis using Cons.IH \<open>ok_skill u_cd t_cd s\<close> dup by auto
    qed
  qed
qed


lemma not_Inr_Inl: "(\<forall>r. x \<noteq> Inr r) \<Longrightarrow> \<exists>e. x = Inl e"
  by (cases x) auto

lemma copy_set_dict: "is_dict x \<Longrightarrow> copy_set x k v = Inr (with_field x k v)"
  by (cases x) (auto simp: with_field_def)

lemma length_filter_dup_topic:
  "length (filter (duplicate seen) (topic_entries u_cd t)) =
   length (filter (\<lambda>s. duplicate seen (u_cd, field t ''topicCd'' JNull, s)) (topic_skills t))"
  by (simp add: topic_entries_def filter_map o_def)

lemma filter_topics_step:
  assumes "ok_topic u_cd t"
  shows "filter_topics seen u_cd (t # ts) (acc, c) =
         filter_topics seen u_cd ts
           (acc @ (if kept_skills seen u_cd t = [] then []
                   else [with_field t ''skills'' (JArr (kept_skills seen u_cd t))]),
            c\<lparr>original_skills_count := original_skills_count c + int (length (topic_entries u_cd t)),
              removed_skills := removed_skills c
                + int (length (filter (duplicate seen) (topic_entries u_cd t)))\<rparr>)"
proof -
  let ?t_cd = "field t ''topicCd'' JNull"
  let ?skills = "field t ''skills'' (JArr [])"
  from assms have d: "is_dict t" and it: "\<not> isl (py_iter ?skills)"
    and sk: "\<forall>s \<in> set (topic_skills t). ok_skill u_cd ?t_cd s"
    by (auto simp: ok_topic_def)
  have g1: "py_get t ''topicCd'' JNull = Inr ?t_cd" using d by (rule py_get_dict)
  have g2: "py_get t ''skills'' (JArr []) = Inr ?skills" using d by (rule py_get_dict)
  have g3: "py_len ?skills = Inr (int (length (topic_skills t)))"
    using it by (simp add: py_len_iter topic_skills_def)
  have g4: "py_iter ?skills = Inr (topic_skills t)"
    using it by (simp add: py_iter_Inr_iff topic_skills_def)
  let ?c1 = "c\<lparr>original_skills_count := original_skills_count c + int (length (topic_skills t))\<rparr>"
  have g5: "filter_skills seen u_cd ?t_cd (topic_skills t) ([], ?c1) =
        Inr (kept_skills seen u_cd t,
             ?c1\<lparr>removed_skills := removed_skills ?c1
                + int (length (filter (\<lambda>s. duplicate seen (u_cd, ?t_cd, s)) (topic_skills t)))\<rparr>)"
    using sk by (simp add: filter_skills_iff kept_skills_def)
  have g6: "copy_set t ''skills'' v = Inr (with_field t ''skills'' v)" for v
    using d by (rule copy_set_dict)
  have len: "length (topic_entries u_cd t) = length (topic_skills t)"
    by (simp add: topic_entries_def)
  show ?thesis
    by (simp add: g1 g2 g3 g4 g5 g6 len length_filter_dup_topic)
qed

lemma filter_topics_not_ok:
  assumes "\<not> ok_topic u_cd t"
  shows "\<exists>e. filter_topics seen u_cd (t # ts) (acc, c) = Inl e"
proof (cases "is_dict t")
  case False
  then show ?thesis by (cases t) auto
next
  case d: True
  let ?t_cd = "field t ''topicCd'' JNull"
  let ?skills = "field t ''skills'' (JArr [])"
  have g1: "py_get t ''topicCd'' JNull = Inr ?t_cd" using d by (rule py_get_dict)
  have g2: "py_get t ''skills'' (JArr []) = Inr ?skills" using d by (rule py_get_dict)
  show ?thesis
  proof (cases "isl (py_iter ?skills)")
    case True
    then have "\<exists>e. py_len ?skills = Inl e" by (cases ?skills) auto
    then show ?thesis using g1 g2 by auto
  next
    case False
    then have g4: "py_iter ?skills = Inr (topic_skills t)"
      by (simp add: py_iter_Inr_iff topic_skills_def)
    have g3: "py_len ?skills = Inr (int (length (topic_skills t)))"
      using False by (simp add: py_len_iter topic_skills_def)
    from assms d False have "\<not> (\<forall>s \<in> set (topic_skills t). ok_skill u_cd ?t_cd s)"
      by (auto simp: ok_topic_def)
    then have "\<forall>r. filter_skills seen u_cd ?t_cd (topic_skills t) ([], c0) \<noteq> Inr r" for c0
      by (auto simp: filter_skills_iff)
    then have "\<exists>e. filter_skills seen u_cd ?t_cd (topic_skills t) ([], c0) = Inl e" for c0
      by (rule not_Inr_Inl)
    then obtain e where
      "filter_skills seen u_cd ?t_cd (topic_skills t)
         ([], c\<lparr>original_skills_count := original_skills_count c + int (length (topic_skills t))\<rparr>) = Inl e"
      by blast
    then show ?thesis using g1 g2 g3 g4 by simp
  qed
qed

lemma filter_topics_iff:
  "filter_topics seen u_cd ts (acc, c) = Inr (acc', c') \<longleftrightarrow>
     (\<forall>t \<in> set ts. ok_topic u_cd t) \<and>
     acc' = acc @ map (\<lambda>t. with_field t ''skills'' (JArr (kept_skills seen u_cd t)))
                    (filter (\<lambda>t. kept_skills seen u_cd t \<noteq> []) ts) \<and>
     c' = c\<lparr>original_skills_count := original_skills_count c
               + int (length (concat (map (topic_entries u_cd) ts))),
             removed_skills := removed_skills c
               + int (length (filter (duplicate seen) (concat (map (topic_entries u_cd) ts))))\<rparr>"
proof (induction ts arbitrary: acc c)
  case Nil
  then show ?case by auto
next
  case (Cons t ts)
  show ?case
  proof (cases "ok_topic u_cd t")
    case False
    from filter_topics_not_ok [OF this] obtain e
      where "filter_topics seen u_cd (t # ts) (acc, c) = Inl e" by blast
    with False show ?thesis by (simp del: filter_topics.simps)
  next
    case True
    show ?thesis
      unfolding filter_topics_step [OF True] Cons.IH using True
      by (auto simp: algebra_simps)
  qed
qed


lemma filter_units_step:
  assumes "ok_unit u"
  shows "filter_units seen (u # us) (acc, c) =
         filter_units seen us
           (acc @ (if kept_topics seen u = [] then []
                   else [with_field u ''topics'' (JArr (kept_topics seen u))]),
            c\<lparr>original_topics_count := original_topics_count c + int (length (unit_topics u)),
              original_skills_count := original_skills_count c + int (length (unit_entries u)),
              removed_skills := removed_skills c
                + int (length (filter (duplicate seen) (unit_entries u)))\<rparr>)"
proof -
  let ?u_cd = "field u ''unitCd'' JNull"
  let ?topics = "field u ''topics'' (JArr [])"
  from assms have d: "is_dict u" and it: "\<not> isl (py_iter ?topics)"
    and tp: "\<forall>t \<in> set (unit_topics u). ok_topic ?u_cd t"
    by (auto simp: ok_unit_def)
  have g1: "py_get u ''unitCd'' JNull = Inr ?u_cd" using d by (rule py_get_dict)
  have g2: "py_get u ''topics'' (JArr []) = Inr ?topics" using d by (rule py_get_dict)
  have g3: "py_len ?topics = Inr (int (length (unit_topics u)))"
    using it by (simp add: py_len_iter unit_topics_def)
  have g4: "py_iter ?topics = Inr (unit_topics u)"
    using it by (simp add: py_iter_Inr_iff unit_topics_def)
  let ?c1 = "c\<lparr>original_topics_count := original_topics_count c + int (length (unit_topics u))\<rparr>"
  have g5: "filter_topics seen ?u_cd (unit_topics u) ([], ?c1) =
        Inr (kept_topics seen u,
             ?c1\<lparr>original_skills_count := original_skills_count ?c1
                    + int (length (unit_entries u)),
                  removed_skills := removed_skills ?c1
                    + int (length (filter (duplicate seen) (unit_entries u)))\<rparr>)"
    using tp by (simp add: filter_topics_iff kept_topics_def unit_entries_def)
  have g6: "copy_set u ''topics'' v = Inr (with_field u ''topics'' v)" for v
    using d by (rule copy_set_dict)
  show ?thesis
    by (simp add: g1 g2 g3 g4 g5 g6)
qed

lemma filter_units_not_ok:
  assumes "\<not> ok_unit u"
  shows "\<exists>e. filter_units seen (u # us) (acc, c) = Inl e"
proof (cases "is_dict u")
  case False
  then show ?thesis by (cases u) auto
next
  case d: True
  let ?u_cd = "field u ''unitCd'' JNull"
  let ?topics = "field u ''topics'' (JArr [])"
  have g1: "py_get u ''unitCd'' JNull = Inr ?u_cd" using d by (rule py_get_dict)
  have g2: "py_get u ''topics'' (JArr []) = Inr ?topics" using d by (rule py_get_dict)
  show ?thesis
  proof (cases "isl (py_iter ?topics)")
    case True
    then have "\<exists>e. py_len ?topics = Inl e" by (cases ?topics) auto
    then show ?thesis using g1 g2 by auto
  next
    case False
    then have g4: "py_iter ?topics = Inr (unit_topics u)"
      by (simp add: py_iter_Inr_iff unit_topics_def)
    have g3: "py_len ?topics = Inr (int (length (unit_topics u)))"
      using False by (simp add: py_len_iter unit_topics_def)
    from assms d False have "\<not> (\<forall>t \<in> set (unit_topics u). ok_topic ?u_cd t)"
      by (auto simp: ok_unit_def)
    then have "\<forall>r. filter_topics seen ?u_cd (unit_topics u) ([], c0) \<noteq> Inr r" for c0
      by (auto simp: filter_topics_iff)
    then have "\<exists>e. filter_topics seen ?u_cd (unit_topics u) ([], c0) = Inl e" for c0
      by (rule not_Inr_Inl)
    then obtain e where
      "filter_topics seen ?u_cd (unit_topics u)
         ([], c\<lparr>original_topics_count := original_topics_count c + int (length (unit_topics u))\<rparr>) = Inl e"
      by blast
    then show ?thesis using g1 g2 g3 g4 by simp
  qed
qed

lemma filter_units_iff:
  "filter_units seen us (acc, c) = Inr (acc', c') \<longleftrightarrow>
     (\<forall>u \<in> set us. ok_unit u) \<and>
     acc' = acc @ kept_units seen us \<and>
     c' = c\<lparr>original_topics_count := original_topics_count c
               + int (length (concat (map unit_topics us))),
             original_skills_count := original_skills_count c + int (length (entries us)),
             removed_skills := removed_skills c
               + int (length (filter (duplicate seen) (entries us)))\<rparr>"
proof (induction us arbitrary: acc c)
  case Nil
  then show ?case by (auto simp: kept_units_def entries_def)
next
  case (Cons u us)
  show ?case
  proof (cases "ok_unit u")
    case False
    from filter_units_not_ok [OF this] obtain e
      where "filter_units seen (u # us) (acc, c) = Inl e" by blast
    with False show ?thesis by (simp del: filter_units.simps)
  next
    case True
    show ?thesis
      unfolding filter_units_step [OF True] Cons.IH using True
      by (auto simp: algebra_simps kept_units_def entries_def)
  qed
qed

lemma units_of_iff:
  "units_of data = Inr units \<longleftrightarrow>
     is_dict data \<and> is_dict (field data ''lookupData'' (JObj [])) \<and>
     units = field (field data ''lookupData'' (JObj [])) ''units'' (JArr [])"
proof (cases "is_dict data")
  case False
  then show ?thesis by (cases data) (auto simp: units_of_def)
next
  case True
  then have g: "py_get data ''lookupData'' (JObj []) = Inr (field data ''lookupData'' (JObj []))"
    by (rule py_get_dict)
  show ?thesis using True by (auto simp: units_of_def g py_get_Inr_iff)
qed

lemma filter_physics_iff:
  "filter_physics seen data = Inr ((new_units, c), n) \<longleftrightarrow>
     ok_doc data \<and>
     new_units = kept_units seen (doc_units data) \<and>
     n = int (length (doc_units data)) \<and>
     c = \<lparr>removed_skills = int (length (filter (duplicate seen) (doc_skills data))),
          original_topics_count = int (length (concat (map unit_topics (doc_units data)))),
          original_skills_count = int (length (doc_skills data))\<rparr>"
proof -
  let ?units = "field (field data ''lookupData'' (JObj [])) ''units'' (JArr [])"
  let ?c0 = "\<lparr>removed_skills = 0, original_topics_count = 0, original_skills_count = 0\<rparr>"
  show ?thesis
  proof (cases "is_dict data \<and> is_dict (field data ''lookupData'' (JObj [])) \<and> \<not> isl (py_iter ?units)")
    case False
    have "\<forall>r. filter_physics seen data \<noteq> Inr r"
    proof (cases "is_dict data \<and> is_dict (field data ''lookupData'' (JObj []))")
      case False
      then have "\<forall>u. units_of data \<noteq> Inr u" by (auto simp: units_of_iff)
      then obtain e where "units_of data = Inl e" using not_Inr_Inl by blast
      then show ?thesis by (simp add: filter_physics_def)
    next
      case True
      then have u: "units_of data = Inr ?units" by (simp add: units_of_iff)
      from True False have "isl (py_iter ?units)" by simp
      then have "\<forall>n. py_len ?units \<noteq> Inr n" by (simp add: py_len_iter)
      then obtain e where "py_len ?units = Inl e" using not_Inr_Inl by blast
      then show ?thesis using u by (simp add: filter_physics_def)
    qed
    with False show ?thesis by (auto simp: ok_doc_def)
  next
    case True
    then have u: "units_of data = Inr ?units" by (simp add: units_of_iff)
    have l: "py_len ?units = Inr (int (length (doc_units data)))"
      using True by (simp add: py_len_iter doc_units_def)
    have i: "py_iter ?units = Inr (doc_units data)"
      using True by (simp add: py_iter_Inr_iff doc_units_def)
    have eq: "filter_physics seen data =
          (case filter_units seen (doc_units data) ([], ?c0) of
             Inl e \<Rightarrow> Inl e | Inr r \<Rightarrow> Inr (r, int (length (doc_units data))))"
      by (simp add: filter_physics_def u l i)
    show ?thesis
    proof (cases "filter_units seen (doc_units data) ([], ?c0)")
      case (Inl e)
      then have "\<not> (\<forall>u \<in> set (doc_units data). ok_unit u)"
        using filter_units_iff [of seen "doc_units data" "[]" ?c0] by auto
      then show ?thesis using eq Inl by (auto simp: ok_doc_def)
    next
      case (Inr r)
      obtain nu c1 where r: "r = (nu, c1)" by (cases r)
      from Inr r filter_units_iff [of seen "doc_units data" "[]" ?c0 nu c1] True
      show ?thesis unfolding eq Inr r
        by (auto simp: ok_doc_def doc_skills_def)
    qed
  qed
qed

section \<open>The run as a whole\<close>

lemma physics_matches: "endswith PHYSICS_FILENAME ''TopicLookup.json''"
  by (simp add: endswith_def PHYSICS_FILENAME_def)

lemma exists_glob: "exists fs PHYSICS_FILENAME \<Longrightarrow> PHYSICS_FILENAME \<in> set (glob fs)"
  by (auto simp: exists_def glob_def physics_matches map_of_eq_None_iff)

lemma physics_not_other: "PHYSICS_FILENAME \<notin> set (other_files paths)"
  by (simp add: other_files_def)

lemma map_of_write_file: "map_of (write_file fs name f) name = Some f"
  by (induction fs) auto

lemma map_of_write_file_other: "name' \<noteq> name \<Longrightarrow> map_of (write_file fs name f) name' = map_of fs name'"
  by (induction fs) auto

text \<open>A run in which the base file exists goes through the aggregation and, unless the
  aggregation raises, through \<open>dedupe\<close>.\<close>

lemma main_exists:
  assumes "exists fs PHYSICS_FILENAME"
  shows "main fs =
     (let all_files = sort (glob fs); others = other_files all_files;
          out = [InfoFound (int (length all_files)), InfoUsing (int (length others))]
                @ map InfoName others
      in case seen_files fs others \<lparr>seen_signatures = {}, other_entry_count = 0, warned = []\<rparr> of
           (Some e, st) \<Rightarrow> \<lparr>console = out @ warned st, raised = Some e, files = fs\<rparr>
         | (None, st) \<Rightarrow>
             dedupe fs (out @ warned st @
                  [InfoCollected (other_entry_count st) (int (card (seen_signatures st)))])
               (seen_signatures st))"
proof -
  from exists_glob [OF assms] have "glob fs \<noteq> []" by auto
  then have "sort (glob fs) \<noteq> []" by (metis length_sort length_0_conv)
  then show ?thesis using assms by (simp add: main_def Let_def del: length_sort)
qed

lemma main_dedupe:
  assumes "exists fs PHYSICS_FILENAME" and "raised (main fs) = None"
  shows "\<exists>out st. seen_files fs (other_files (sort (glob fs)))
                    \<lparr>seen_signatures = {}, other_entry_count = 0, warned = []\<rparr> = (None, st)
           \<and> seen_signatures st = loaded_sigs fs (other_files (sort (glob fs)))
           \<and> main fs = dedupe fs out (loaded_sigs fs (other_files (sort (glob fs))))"
proof -
  let ?st0 = "\<lparr>seen_signatures = {}, other_entry_count = 0, warned = []\<rparr>"
  let ?others = "other_files (sort (glob fs))"
  obtain r st where sf: "seen_files fs ?others ?st0 = (r, st)" by (cases "seen_files fs ?others ?st0")
  show ?thesis
  proof (cases r)
    case (Some e)
    with sf assms show ?thesis by (simp add: main_exists Let_def)
  next
    case None
    with sf have sf': "seen_files fs ?others ?st0 = (None, st)" by simp
    from seen_files_None [OF sf'] have "seen_signatures st = loaded_sigs fs ?others" by simp
    with sf' assms(1) show ?thesis by (auto simp: main_exists Let_def)
  qed
qed

lemma count_topics_Inr:
  "count_topics us acc = Inr n \<Longrightarrow> n = acc + int (length (concat (map unit_topics us)))"
proof (induction us arbitrary: acc)
  case Nil
  then show ?case by simp
next
  case (Cons u us)
  from Cons.prems obtain topics k where g1: "py_get u ''topics'' (JArr []) = Inr topics"
    and g2: "py_len topics = Inr k" and g3: "count_topics us (acc + k) = Inr n"
    by (auto split: sum.splits)
  from g1 g2 have "k = int (length (unit_topics u))"
    by (simp add: py_len_iter unit_topics_def py_get_field)
  with Cons.IH [OF g3] show ?case by simp
qed

lemma count_skills_of_Inr:
  "count_skills_of ts acc = Inr n \<Longrightarrow> n = acc + int (length (concat (map (topic_entries u_cd) ts)))"
proof (induction ts arbitrary: acc)
  case Nil
  then show ?case by simp
next
  case (Cons t ts)
  from Cons.prems obtain skills k where g1: "py_get t ''skills'' (JArr []) = Inr skills"
    and g2: "py_len skills = Inr k" and g3: "count_skills_of ts (acc + k) = Inr n"
    by (auto split: sum.splits)
  from g1 g2 have "k = int (length (topic_entries u_cd t))"
    by (simp add: py_len_iter topic_skills_def topic_entries_def py_get_field)
  with Cons.IH [OF g3] show ?case by simp
qed

lemma count_skills_Inr:
  "count_skills us acc = Inr n \<Longrightarrow> n = acc + int (length (entries us))"
proof (induction us arbitrary: acc)
  case Nil
  then show ?case by (simp add: entries_def)
next
  case (Cons u us)
  from Cons.prems obtain topics ts k where g1: "py_get u ''topics'' (JArr []) = Inr topics"
    and g2: "py_iter topics = Inr ts" and g3: "count_skills_of ts acc = Inr k"
    and g4: "count_skills us k = Inr n"
    by (auto split: sum.splits)
  from g1 g2 have ut: "unit_topics u = ts" by (simp add: unit_topics_def py_get_field py_iter_elems)
  from count_skills_of_Inr [OF g3, of "field u ''unitCd'' JNull"] ut
  have "k = acc + int (length (unit_entries u))" by (simp add: unit_entries_def)
  with Cons.IH [OF g4] show ?case by (simp add: entries_def)
qed

lemma dedupe_done:
  assumes "raised (dedupe fs out seen) = None"
  shows "\<exists>data. load_json fs PHYSICS_FILENAME = Inr data \<and> ok_doc data \<and>
           files (dedupe fs out seen) =
             write_file fs OUTPUT_FILENAME (Content (new_data (kept_units seen (doc_units data)))) \<and>
           console (dedupe fs out seen) = out @
             [Summary (int (length (doc_units data)))
                      (int (length (kept_units seen (doc_units data))))
                      (int (length (concat (map unit_topics (doc_units data)))))
                      (int (length (concat (map unit_topics (kept_units seen (doc_units data))))))
                      (int (length (doc_skills data)))
                      (int (length (entries (kept_units seen (doc_units data)))))
                      (int (length (filter (duplicate seen) (doc_skills data)))),
              OutputWritten]"
proof -
  from assms obtain data where ld: "load_json fs PHYSICS_FILENAME = Inr data"
    by (cases "load_json fs PHYSICS_FILENAME") (auto simp: dedupe_def)
  from assms ld obtain nu c n where fp: "filter_physics seen data = Inr ((nu, c), n)"
    by (cases "filter_physics seen data") (auto simp: dedupe_def)
  from assms ld fp obtain tc where ct: "count_topics nu 0 = Inr tc"
    by (cases "count_topics nu 0") (auto simp: dedupe_def Let_def)
  from assms ld fp ct obtain sc where cs: "count_skills nu 0 = Inr sc"
    by (cases "count_skills nu 0") (auto simp: dedupe_def Let_def)
  from fp have ok: "ok_doc data" and nu: "nu = kept_units seen (doc_units data)"
    and n: "n = int (length (doc_units data))"
    and c: "c = \<lparr>removed_skills = int (length (filter (duplicate seen) (doc_skills data))),
          original_topics_count = int (length (concat (map unit_topics (doc_units data)))),
          original_skills_count = int (length (doc_skills data))\<rparr>"
    by (simp_all add: filter_physics_iff)
  from count_topics_Inr [OF ct] have tc: "tc = int (length (concat (map unit_topics nu)))" by simp
  from count_skills_Inr [OF cs] have sc: "sc = int (length (entries nu))" by simp
  have "dedupe fs out seen =
      \<lparr>console = out @ [Summary n (int (length nu)) (original_topics_count c) tc
                               (original_skills_count c) sc (removed_skills c), OutputWritten],
       raised = None,
       files = write_file fs OUTPUT_FILENAME (Content (new_data nu))\<rparr>"
    by (simp add: dedupe_def ld fp ct cs Let_def)
  then show ?thesis using ld ok nu n c tc sc by simp
qed

section \<open>The entries of the filtered units\<close>

lemma map_of_dict_set: "map_of (dict_set kvs k v) = (map_of kvs)(k \<mapsto> v)"
  by (induction kvs) (auto simp: fun_eq_iff)

lemma is_dict_with_field: "is_dict (with_field x k v) = is_dict x"
  by (cases x) (auto simp: with_field_def)

lemma field_with_field_same: "is_dict x \<Longrightarrow> field (with_field x k v) k d = v"
  by (cases x) (auto simp: with_field_def field_def map_of_dict_set)

lemma field_with_field_other: "k' \<noteq> k \<Longrightarrow> field (with_field x k v) k' d = field x k' d"
  by (cases x) (auto simp: with_field_def field_def map_of_dict_set)

lemma elems_JArr: "elems (JArr xs) = xs"
  by (simp add: elems_def)

lemma doc_units_new_data: "doc_units (new_data us) = us"
  by (simp add: doc_units_def new_data_def field_def elems_def)

lemma topic_skills_with: "is_dict t \<Longrightarrow> topic_skills (with_field t ''skills'' (JArr ss)) = ss"
  by (simp add: topic_skills_def field_with_field_same elems_JArr)

lemma unit_topics_with: "is_dict u \<Longrightarrow> unit_topics (with_field u ''topics'' (JArr ts)) = ts"
  by (simp add: unit_topics_def field_with_field_same elems_JArr)

lemma concat_map_filter_nonempty:
  "concat (map f (filter (\<lambda>x. f x \<noteq> []) xs)) = concat (map f xs)"
  by (induction xs) auto

lemma kept_skills_entries:
  "map (\<lambda>s. (u_cd, field t ''topicCd'' JNull, s)) (kept_skills seen u_cd t) =
   filter (\<lambda>e. \<not> duplicate seen e) (topic_entries u_cd t)"
  by (simp add: kept_skills_def topic_entries_def filter_map o_def)

lemma kept_skills_Nil_iff:
  "kept_skills seen u_cd t = [] \<longleftrightarrow> filter (\<lambda>e. \<not> duplicate seen e) (topic_entries u_cd t) = []"
  unfolding kept_skills_entries [symmetric] by simp

lemma topic_entries_with:
  assumes "is_dict t"
  shows "topic_entries u_cd (with_field t ''skills'' (JArr (kept_skills seen u_cd t))) =
         filter (\<lambda>e. \<not> duplicate seen e) (topic_entries u_cd t)"
proof -
  have "topic_entries u_cd (with_field t ''skills'' (JArr (kept_skills seen u_cd t))) =
        map (\<lambda>s. (u_cd, field t ''topicCd'' JNull, s)) (kept_skills seen u_cd t)"
    using assms by (simp add: topic_entries_def [of u_cd "with_field t ''skills'' (JArr (kept_skills seen u_cd t))"]
                      topic_skills_with field_with_field_other)
  then show ?thesis by (simp add: kept_skills_entries)
qed

lemma kept_topics_entries:
  assumes "\<forall>t \<in> set (unit_topics u). is_dict t"
  shows "concat (map (topic_entries (field u ''unitCd'' JNull)) (kept_topics seen u)) =
         filter (\<lambda>e. \<not> duplicate seen e) (unit_entries u)"
proof -
  let ?uc = "field u ''unitCd'' JNull"
  let ?g = "\<lambda>t. filter (\<lambda>e. \<not> duplicate seen e) (topic_entries ?uc t)"
  have m: "map (\<lambda>t. topic_entries ?uc (with_field t ''skills'' (JArr (kept_skills seen ?uc t)))) ts =
           map ?g ts" if "set ts \<subseteq> set (unit_topics u)" for ts
    using that assms by (intro map_cong) (auto simp: topic_entries_with)
  have "concat (map (topic_entries ?uc) (kept_topics seen u)) =
        concat (map ?g (filter (\<lambda>t. ?g t \<noteq> []) (unit_topics u)))"
    by (simp add: kept_topics_def o_def kept_skills_Nil_iff m)
  also have "\<dots> = concat (map ?g (unit_topics u))" by (rule concat_map_filter_nonempty)
  also have "\<dots> = filter (\<lambda>e. \<not> duplicate seen e) (unit_entries u)"
    by (simp add: unit_entries_def filter_concat o_def)
  finally show ?thesis .
qed

lemma ok_unit_dicts: "ok_unit u \<Longrightarrow> is_dict u \<and> (\<forall>t \<in> set (unit_topics u). is_dict t)"
  by (auto simp: ok_unit_def ok_topic_def)

lemma unit_entries_with:
  assumes "ok_unit u"
  shows "unit_entries (with_field u ''topics'' (JArr (kept_topics seen u))) =
         filter (\<lambda>e. \<not> duplicate seen e) (unit_entries u)"
proof -
  from ok_unit_dicts [OF assms] have d: "is_dict u" and ts: "\<forall>t \<in> set (unit_topics u). is_dict t"
    by auto
  have "unit_entries (with_field u ''topics'' (JArr (kept_topics seen u))) =
        concat (map (topic_entries (field u ''unitCd'' JNull)) (kept_topics seen u))"
    using d by (simp add: unit_entries_def [of "with_field u ''topics'' (JArr (kept_topics seen u))"]
                   unit_topics_with field_with_field_other)
  then show ?thesis using kept_topics_entries [OF ts] by simp
qed

lemma kept_topics_Nil_iff:
  assumes "\<forall>t \<in> set (unit_topics u). is_dict t"
  shows "kept_topics seen u = [] \<longleftrightarrow> filter (\<lambda>e. \<not> duplicate seen e) (unit_entries u) = []"
proof -
  have "kept_topics seen u = [] \<longleftrightarrow>
        (\<forall>t \<in> set (unit_topics u). kept_skills seen (field u ''unitCd'' JNull) t = [])"
    by (auto simp: kept_topics_def filter_empty_conv)
  also have "\<dots> \<longleftrightarrow> filter (\<lambda>e. \<not> duplicate seen e) (unit_entries u) = []"
    by (simp add: kept_skills_Nil_iff unit_entries_def filter_concat o_def)
  finally show ?thesis .
qed

lemma entries_kept_units:
  assumes "\<forall>u \<in> set us. ok_unit u"
  shows "entries (kept_units seen us) = filter (\<lambda>e. \<not> duplicate seen e) (entries us)"
proof -
  let ?g = "\<lambda>u. filter (\<lambda>e. \<not> duplicate seen e) (unit_entries u)"
  have f: "filter (\<lambda>u. kept_topics seen u \<noteq> []) us = filter (\<lambda>u. ?g u \<noteq> []) us"
    using assms by (intro filter_cong) (auto simp: kept_topics_Nil_iff ok_unit_dicts)
  have m: "map (\<lambda>u. unit_entries (with_field u ''topics'' (JArr (kept_topics seen u)))) xs =
           map ?g xs" if "set xs \<subseteq> set us" for xs
    using that assms by (intro map_cong) (auto simp: unit_entries_with)
  have "entries (kept_units seen us) = concat (map ?g (filter (\<lambda>u. ?g u \<noteq> []) us))"
    by (simp add: entries_def kept_units_def o_def f m)
  also have "\<dots> = concat (map ?g us)" by (rule concat_map_filter_nonempty)
  also have "\<dots> = filter (\<lambda>e. \<not> duplicate seen e) (entries us)"
    by (simp add: entries_def filter_concat o_def)
  finally show ?thesis .
qed

lemma doc_skills_output:
  assumes "ok_doc data"
  shows "doc_skills (new_data (kept_units seen (doc_units data))) =
         filter (\<lambda>e. \<not> duplicate seen e) (doc_skills data)"
  using assms by (simp add: doc_skills_def doc_units_new_data entries_kept_units ok_doc_def)

section \<open>Signatures and the written document\<close>

lemma py_key_truthy: "py_key x = Some k \<Longrightarrow> py_key y = Some k \<Longrightarrow> truthy x = truthy y"
  by (cases x; cases y) (auto split: if_splits)

lemma sig_key_Inr:
  "sig_key u t s = Inr sg \<longleftrightarrow> (\<exists>a b c. py_key u = Some a \<and> py_key t = Some b \<and> py_key s = Some c \<and> sg = (a, b, c))"
  by (auto simp: sig_key_def split: option.splits)

lemma entry_sig_valid:
  assumes "entry_sig e = Inr sg" and "entry_sig e' = Inr sg"
  shows "valid_entry e = valid_entry e'"
proof -
  obtain u t s where e: "e = (u, t, s)" by (cases e)
  obtain u' t' s' where e': "e' = (u', t', s')" by (cases e')
  from assms show ?thesis unfolding e e'
    by (auto simp: sig_key_Inr dest: py_key_truthy)
qed

lemma entry_sigs_valid: "sg \<in> entry_sigs es \<Longrightarrow> entry_sig e = Inr sg \<Longrightarrow> valid_entry e"
  by (auto simp: entry_sigs_def dest: entry_sig_valid)

lemma loaded_sigs_valid:
  assumes "sg \<in> loaded_sigs fs paths" and "entry_sig e = Inr sg"
  shows "valid_entry e"
proof -
  from assms(1) obtain p where
    p: "sg \<in> (case load_json fs p of Inr data \<Rightarrow> valid_sigs data | Inl e \<Rightarrow> {})"
    by (auto simp: loaded_sigs_def)
  then obtain data where "load_json fs p = Inr data" and "sg \<in> valid_sigs data"
    by (cases "load_json fs p") auto
  then have "sg \<in> entry_sigs (doc_skills data)" by (simp add: valid_sigs_def)
  from entry_sigs_valid [OF this assms(2)] show ?thesis .
qed

lemma invalid_not_duplicate: "\<not> valid_entry e \<Longrightarrow> \<not> duplicate (loaded_sigs fs paths) e"
  by (auto simp: duplicate_def split: sum.splits dest: loaded_sigs_valid)

lemma loaded_sigs_member:
  "p \<in> set paths \<Longrightarrow> load_json fs p = Inr data \<Longrightarrow> e \<in> set (doc_skills data) \<Longrightarrow>
   valid_entry e \<Longrightarrow> entry_sig e = Inr sg \<Longrightarrow> sg \<in> loaded_sigs fs paths"
  by (force simp: loaded_sigs_def valid_sigs_def entry_sigs_def)

lemma ok_doc_entry:
  assumes "ok_doc data" and "e \<in> set (doc_skills data)"
  shows "\<exists>sg. entry_sig e = Inr sg"
proof -
  from assms(2) obtain u t s where u: "u \<in> set (doc_units data)" and t: "t \<in> set (unit_topics u)"
    and s: "s \<in> set (topic_skills t)"
    and e: "e = (field u ''unitCd'' JNull, field t ''topicCd'' JNull, s)"
    by (auto simp: doc_skills_def entries_def unit_entries_def topic_entries_def)
  from assms(1) u t s have "ok_skill (field u ''unitCd'' JNull) (field t ''topicCd'' JNull) s"
    by (auto simp: ok_doc_def ok_unit_def ok_topic_def)
  then show ?thesis unfolding e ok_skill_def
    by (cases "entry_sig (field u ''unitCd'' JNull, field t ''topicCd'' JNull, s)") auto
qed

text \<open>A run in which the base file exists and nothing is raised writes the filter of the
  base document against the signatures of the other files.\<close>

lemma run_output:
  assumes "exists fs PHYSICS_FILENAME" and "raised (main fs) = None"
  shows "\<exists>base. load_json fs PHYSICS_FILENAME = Inr base \<and> ok_doc base \<and>
           map_of (files (main fs)) OUTPUT_FILENAME =
             Some (Content (new_data (kept_units (loaded_sigs fs (other_files (sort (glob fs))))
                                        (doc_units base))))"
proof -
  let ?seen = "loaded_sigs fs (other_files (sort (glob fs)))"
  from main_dedupe [OF assms] obtain out where m: "main fs = dedupe fs out ?seen" by blast
  with assms(2) have "raised (dedupe fs out ?seen) = None" by simp
  from dedupe_done [OF this] m show ?thesis by (auto simp: map_of_write_file)
qed


lemma dedupe_console: "raised (dedupe fs out seen) \<noteq> None \<Longrightarrow> console (dedupe fs out seen) = out"
  by (auto simp: dedupe_def Let_def split: sum.splits prod.splits)

lemma dedupe_load_fails:
  "load_json fs PHYSICS_FILENAME = Inl e \<Longrightarrow>
   dedupe fs out seen = \<lparr>console = out, raised = Some e, files = fs\<rparr>"
  by (simp add: dedupe_def)

lemma seen_files_warned:
  "seen_files fs paths st = (r, st') \<Longrightarrow> set (warned st') \<subseteq> set (warned st) \<union> WarnSkipping ` set paths"
proof (induction paths arbitrary: st)
  case Nil
  then show ?case by simp
next
  case (Cons p ps)
  show ?case
  proof (cases "load_json fs p")
    case (Inl e)
    with Cons.prems
    have "seen_files fs ps (st\<lparr>warned := warned st @ [WarnSkipping p]\<rparr>) = (r, st')" by simp
    from Cons.IH [OF this] show ?thesis by auto
  next
    case (Inr data)
    show ?thesis
    proof (cases "seen_data data st")
      case (Inl e)
      with Cons.prems Inr show ?thesis by auto
    next
      case st1: (Inr st1)
      with Cons.prems Inr have "seen_files fs ps st1 = (r, st')" by simp
      from Cons.IH [OF this] seen_data_Inr [OF st1] show ?thesis by auto
    qed
  qed
qed


section \<open>Filtering what has been filtered\<close>

lemma dict_set_idem: "dict_set (dict_set kvs k v) k v = dict_set kvs k v"
  by (induction kvs) auto

lemma with_field_idem: "with_field (with_field x k v) k v = with_field x k v"
  by (cases x) (auto simp: with_field_def dict_set_idem)

lemma kept_skills_with:
  assumes "is_dict t"
  shows "kept_skills seen u_cd (with_field t ''skills'' (JArr (kept_skills seen u_cd t))) =
         kept_skills seen u_cd t"
proof -
  let ?t' = "with_field t ''skills'' (JArr (kept_skills seen u_cd t))"
  have "kept_skills seen u_cd ?t' =
        filter (\<lambda>s. \<not> duplicate seen (u_cd, field t ''topicCd'' JNull, s)) (kept_skills seen u_cd t)"
    using assms by (simp add: kept_skills_def [of seen u_cd ?t'] topic_skills_with field_with_field_other)
  also have "\<dots> = kept_skills seen u_cd t" by (simp add: kept_skills_def)
  finally show ?thesis .
qed

text \<open>The topics that the filter keeps of a unit.\<close>

lemma kept_topics_member:
  "t' \<in> set (kept_topics seen u) \<longleftrightarrow>
     (\<exists>t \<in> set (unit_topics u). kept_skills seen (field u ''unitCd'' JNull) t \<noteq> [] \<and>
        t' = with_field t ''skills'' (JArr (kept_skills seen (field u ''unitCd'' JNull) t)))"
  by (auto simp: kept_topics_def)

lemma kept_units_member:
  "u' \<in> set (kept_units seen us) \<longleftrightarrow>
     (\<exists>u \<in> set us. kept_topics seen u \<noteq> [] \<and>
        u' = with_field u ''topics'' (JArr (kept_topics seen u)))"
  by (auto simp: kept_units_def)

lemma kept_topics_with:
  assumes "ok_unit u"
  shows "kept_topics seen (with_field u ''topics'' (JArr (kept_topics seen u))) = kept_topics seen u"
proof -
  let ?uc = "field u ''unitCd'' JNull"
  let ?u' = "with_field u ''topics'' (JArr (kept_topics seen u))"
  let ?W = "\<lambda>t. with_field t ''skills'' (JArr (kept_skills seen ?uc t))"
  from ok_unit_dicts [OF assms] have d: "is_dict u" and ts: "\<forall>t \<in> set (unit_topics u). is_dict t"
    by auto
  have each: "kept_skills seen ?uc t' \<noteq> [] \<and> ?W t' = t'" if "t' \<in> set (kept_topics seen u)" for t'
  proof -
    from that obtain t where t: "t \<in> set (unit_topics u)" and ne: "kept_skills seen ?uc t \<noteq> []"
      and t': "t' = ?W t"
      by (auto simp: kept_topics_member)
    from t ts have "is_dict t" by simp
    then have "kept_skills seen ?uc t' = kept_skills seen ?uc t"
      unfolding t' by (rule kept_skills_with)
    then show ?thesis using ne t' by (simp add: with_field_idem)
  qed
  have "kept_topics seen ?u' =
        map ?W (filter (\<lambda>t. kept_skills seen ?uc t \<noteq> []) (kept_topics seen u))"
    using d by (simp add: kept_topics_def [of seen ?u'] unit_topics_with field_with_field_other)
  also have "filter (\<lambda>t. kept_skills seen ?uc t \<noteq> []) (kept_topics seen u) = kept_topics seen u"
    using each by (simp add: filter_id_conv)
  also have "map ?W (kept_topics seen u) = kept_topics seen u"
    using each by (simp add: map_idI)
  finally show ?thesis .
qed

lemma kept_units_idem:
  assumes "\<forall>u \<in> set us. ok_unit u"
  shows "kept_units seen (kept_units seen us) = kept_units seen us"
proof -
  let ?W = "\<lambda>u. with_field u ''topics'' (JArr (kept_topics seen u))"
  have each: "kept_topics seen u' \<noteq> [] \<and> ?W u' = u'" if "u' \<in> set (kept_units seen us)" for u'
  proof -
    from that obtain u where u: "u \<in> set us" and ne: "kept_topics seen u \<noteq> []" and u': "u' = ?W u"
      by (auto simp: kept_units_member)
    from u assms have "ok_unit u" by simp
    then have "kept_topics seen u' = kept_topics seen u" unfolding u' by (rule kept_topics_with)
    then show ?thesis using ne u' by (simp add: with_field_idem)
  qed
  have "kept_units seen (kept_units seen us) =
        map ?W (filter (\<lambda>u. kept_topics seen u \<noteq> []) (kept_units seen us))"
    by (simp add: kept_units_def)
  also have "filter (\<lambda>u. kept_topics seen u \<noteq> []) (kept_units seen us) = kept_units seen us"
    using each by (simp add: filter_id_conv)
  also have "map ?W (kept_units seen us) = kept_units seen us"
    using each by (simp add: map_idI)
  finally show ?thesis .
qed

lemma py_iter_JArr: "\<not> isl (py_iter (JArr xs))"
  by simp

lemma ok_topic_with:
  assumes "ok_topic u_cd t"
  shows "ok_topic u_cd (with_field t ''skills'' (JArr (kept_skills seen u_cd t)))"
proof -
  from assms have d: "is_dict t"
    and sk: "\<forall>s \<in> set (topic_skills t). ok_skill u_cd (field t ''topicCd'' JNull) s"
    by (auto simp: ok_topic_def)
  have "set (kept_skills seen u_cd t) \<subseteq> set (topic_skills t)" by (auto simp: kept_skills_def)
  with sk d show ?thesis
    by (auto simp: ok_topic_def is_dict_with_field field_with_field_same field_with_field_other
          topic_skills_with)
qed

lemma ok_unit_with:
  assumes "ok_unit u"
  shows "ok_unit (with_field u ''topics'' (JArr (kept_topics seen u)))"
proof -
  let ?uc = "field u ''unitCd'' JNull"
  from assms have d: "is_dict u" and tp: "\<forall>t \<in> set (unit_topics u). ok_topic ?uc t"
    by (auto simp: ok_unit_def)
  have "ok_topic ?uc t'" if "t' \<in> set (kept_topics seen u)" for t'
    using that tp by (auto simp: kept_topics_member ok_topic_with)
  with d show ?thesis
    by (auto simp: ok_unit_def is_dict_with_field field_with_field_same field_with_field_other
          unit_topics_with)
qed

lemma ok_doc_new_data:
  assumes "\<forall>u \<in> set us. ok_unit u"
  shows "ok_doc (new_data (kept_units seen us))"
proof -
  have "ok_unit u'" if "u' \<in> set (kept_units seen us)" for u'
    using that assms by (auto simp: kept_units_member ok_unit_with)
  then have "\<forall>u \<in> set (doc_units (new_data (kept_units seen us))). ok_unit u"
    by (simp add: doc_units_new_data)
  moreover have "is_dict (new_data x)" "is_dict (field (new_data x) ''lookupData'' (JObj []))"
    "\<not> isl (py_iter (field (field (new_data x) ''lookupData'' (JObj [])) ''units'' (JArr [])))" for x
    by (simp_all add: new_data_def field_def)
  ultimately show ?thesis by (simp add: ok_doc_def)
qed

text \<open>Every kept unit has a topic and every kept topic a skill.\<close>

lemma kept_units_nonempty:
  assumes "\<forall>u \<in> set us. ok_unit u" and "u' \<in> set (kept_units seen us)"
  shows "unit_topics u' \<noteq> [] \<and> (\<forall>t' \<in> set (unit_topics u'). topic_skills t' \<noteq> [])"
proof -
  from assms(2) obtain u where u: "u \<in> set us" and ne: "kept_topics seen u \<noteq> []"
    and u': "u' = with_field u ''topics'' (JArr (kept_topics seen u))"
    by (auto simp: kept_units_member)
  from u assms(1) have ok: "ok_unit u" by simp
  from ok_unit_dicts [OF ok] have d: "is_dict u" and ts: "\<forall>t \<in> set (unit_topics u). is_dict t"
    by auto
  from d have ut: "unit_topics u' = kept_topics seen u" unfolding u' by (rule unit_topics_with)
  have "topic_skills t' \<noteq> []" if "t' \<in> set (kept_topics seen u)" for t'
    using that ts by (auto simp: kept_topics_member topic_skills_with)
  with ut ne show ?thesis by simp
qed


section \<open>What the filter leaves untouched\<close>

lemma same_fields_dict_set: "map_of kvs k \<noteq> None \<Longrightarrow> same_fields k kvs (dict_set kvs k v)"
proof (induction kvs)
  case Nil
  then show ?case by simp
next
  case (Cons a kvs)
  have refl: "same_fields k xs xs" for xs by (induction xs) auto
  from Cons show ?case by (cases a) (auto simp: refl)
qed

lemma elems_field_present:
  assumes "elems (field (JObj kvs) k (JArr [])) \<noteq> []"
  shows "map_of kvs k \<noteq> None"
  using assms by (cases "map_of kvs k") (auto simp: field_def elems_def)

lemma same_but_with_field:
  assumes "is_dict x" and "elems (field x k (JArr [])) \<noteq> []"
  shows "same_but k x (with_field x k v)"
proof -
  from assms(1) obtain kvs where x: "x = JObj kvs" by (cases x) auto
  from assms(2) have "map_of kvs k \<noteq> None" unfolding x by (rule elems_field_present)
  then show ?thesis unfolding x by (simp add: with_field_def same_fields_dict_set)
qed

lemma list_emb_map_filter:
  "(\<And>x. x \<in> set xs \<Longrightarrow> Q x \<Longrightarrow> P (f x) x) \<Longrightarrow> list_emb P (map f (filter Q xs)) xs"
  by (induction xs) auto

lemma topic_from_kept:
  assumes "is_dict t" and "kept_skills seen u_cd t \<noteq> []"
  shows "topic_from (with_field t ''skills'' (JArr (kept_skills seen u_cd t))) t"
proof -
  from assms(2) have "topic_skills t \<noteq> []" by (auto simp: kept_skills_def)
  then have "elems (field t ''skills'' (JArr [])) \<noteq> []" by (simp add: topic_skills_def)
  from same_but_with_field [OF assms(1) this]
  have "same_but ''skills'' t (with_field t ''skills'' (JArr (kept_skills seen u_cd t)))" .
  moreover have "subseq (kept_skills seen u_cd t) (topic_skills t)"
    by (simp add: kept_skills_def)
  ultimately show ?thesis using assms(1) by (simp add: topic_from_def topic_skills_with)
qed

lemma unit_from_kept:
  assumes "ok_unit u" and "kept_topics seen u \<noteq> []"
  shows "unit_from (with_field u ''topics'' (JArr (kept_topics seen u))) u"
proof -
  from ok_unit_dicts [OF assms(1)] have d: "is_dict u" and ts: "\<forall>t \<in> set (unit_topics u). is_dict t"
    by auto
  from assms(2) have "unit_topics u \<noteq> []" by (auto simp: kept_topics_def)
  then have "elems (field u ''topics'' (JArr [])) \<noteq> []" by (simp add: unit_topics_def)
  from same_but_with_field [OF d this]
  have a: "same_but ''topics'' u (with_field u ''topics'' (JArr (kept_topics seen u)))" .
  have b: "list_emb topic_from (kept_topics seen u) (unit_topics u)"
    unfolding kept_topics_def
    by (rule list_emb_map_filter) (use ts in \<open>auto intro: topic_from_kept\<close>)
  from a b d show ?thesis by (simp add: unit_from_def unit_topics_with)
qed


text \<open>Against the empty set nothing is a duplicate.\<close>

lemma dict_set_same: "map_of kvs k = Some v \<Longrightarrow> dict_set kvs k v = kvs"
  by (induction kvs) (auto split: if_splits)

lemma elems_dicts_JArr:
  assumes "elems v \<noteq> []" and "\<forall>x \<in> set (elems v). is_dict x"
  shows "v = JArr (elems v)"
proof (cases v)
  case (JObj kvs)
  with assms(1) obtain kv rest where "kvs = kv # rest" by (cases kvs) (auto simp: elems_def)
  with JObj have "JStr (fst kv) \<in> set (elems v)" by (simp add: elems_def)
  with assms(2) have "is_dict (JStr (fst kv))" by blast
  then show ?thesis by simp
next
  case (JStr s)
  with assms(1) obtain c rest where "s = c # rest" by (cases s) (auto simp: elems_def)
  with JStr have "JStr [c] \<in> set (elems v)" by (simp add: elems_def)
  with assms(2) have "is_dict (JStr [c])" by blast
  then show ?thesis by simp
qed (use assms in \<open>auto simp: elems_def\<close>)

lemma with_field_same:
  assumes "is_dict x" and "field x k (JArr []) = JArr xs" and "xs \<noteq> []"
  shows "with_field x k (JArr xs) = x"
proof -
  from assms(1) obtain kvs where x: "x = JObj kvs" by (cases x) auto
  from assms(2,3) have "map_of kvs k = Some (JArr xs)"
    unfolding x by (auto simp: field_def split: option.splits)
  then show ?thesis unfolding x by (simp add: with_field_def dict_set_same)
qed

lemma duplicate_empty: "\<not> duplicate {} e"
  by (simp add: duplicate_def split: sum.splits)

lemma kept_skills_empty: "kept_skills {} u_cd t = topic_skills t"
  by (simp add: kept_skills_def duplicate_empty)

lemma kept_topics_empty:
  assumes "ok_unit u" and "\<forall>t \<in> set (unit_topics u). topic_skills t \<noteq> []"
  shows "kept_topics {} u = unit_topics u"
proof -
  have "with_field t ''skills'' (JArr (topic_skills t)) = t" if t: "t \<in> set (unit_topics u)" for t
  proof -
    from assms(1) t have d: "is_dict t" and sk: "\<forall>s \<in> set (topic_skills t). is_dict s"
      by (auto simp: ok_unit_def ok_topic_def ok_skill_def)
    from assms(2) t have ne: "topic_skills t \<noteq> []" by simp
    from elems_dicts_JArr [of "field t ''skills'' (JArr [])"] ne sk
    have "field t ''skills'' (JArr []) = JArr (topic_skills t)" by (simp add: topic_skills_def)
    from with_field_same [OF d this ne] show ?thesis .
  qed
  then show ?thesis using assms(2)
    by (simp add: kept_topics_def kept_skills_empty filter_id_conv map_idI)
qed

lemma kept_units_empty:
  assumes "\<forall>u \<in> set us. ok_unit u"
    and "\<forall>u \<in> set us. unit_topics u \<noteq> [] \<and> (\<forall>t \<in> set (unit_topics u). topic_skills t \<noteq> [])"
  shows "kept_units {} us = us"
proof -
  have each: "kept_topics {} u \<noteq> [] \<and> with_field u ''topics'' (JArr (kept_topics {} u)) = u"
    if u: "u \<in> set us" for u
  proof -
    from assms u have ok: "ok_unit u" and ne: "unit_topics u \<noteq> []"
      and tn: "\<forall>t \<in> set (unit_topics u). topic_skills t \<noteq> []" by auto
    from kept_topics_empty [OF ok tn] have k: "kept_topics {} u = unit_topics u" .
    from ok_unit_dicts [OF ok] have d: "is_dict u" and ts: "\<forall>t \<in> set (unit_topics u). is_dict t"
      by auto
    from elems_dicts_JArr [of "field u ''topics'' (JArr [])"] ne ts
    have "field u ''topics'' (JArr []) = JArr (unit_topics u)" by (simp add: unit_topics_def)
    from with_field_same [OF d this ne] k ne show ?thesis by simp
  qed
  then show ?thesis by (simp add: kept_units_def filter_id_conv map_idI)
qed


section \<open>The claims\<close>

text \<open>
  Claim C1. Take a run in which the base file exists and no exception is raised. For
  every entry with three non-empty codes that occurs in an other file that loads, the
  output file is written and no skill of the written document has the signature of that
  entry.
\<close>

theorem C1_other_signature_not_in_output:
  assumes "exists fs PHYSICS_FILENAME" and "raised (main fs) = None"
    and "p \<in> set (other_files (sort (glob fs)))" and "load_json fs p = Inr data"
    and "e \<in> set (doc_skills data)" and "valid_entry e"
  shows "\<exists>out. map_of (files (main fs)) OUTPUT_FILENAME = Some (Content out) \<and>
           (\<forall>e' \<in> set (doc_skills out). entry_sig e' \<noteq> entry_sig e)"
proof -
  let ?seen = "loaded_sigs fs (other_files (sort (glob fs)))"
  from run_output [OF assms(1,2)] obtain base where ok: "ok_doc base"
    and out: "map_of (files (main fs)) OUTPUT_FILENAME =
                Some (Content (new_data (kept_units ?seen (doc_units base))))"
    by blast
  have "entry_sig e' \<noteq> entry_sig e"
    if "e' \<in> set (doc_skills (new_data (kept_units ?seen (doc_units base))))" for e'
  proof
    assume eq: "entry_sig e' = entry_sig e"
    from that have in_base: "e' \<in> set (doc_skills base)" and nd: "\<not> duplicate ?seen e'"
      by (simp_all add: doc_skills_output [OF ok])
    from ok_doc_entry [OF ok in_base] obtain sg where sg: "entry_sig e' = Inr sg" by blast
    with eq have "entry_sig e = Inr sg" by simp
    from loaded_sigs_member [OF assms(3,4,5,6) this] have "sg \<in> ?seen" .
    with sg nd show False by (simp add: duplicate_def)
  qed
  with out show ?thesis by blast
qed


theorem C1_other_signature_not_in_output_witness:
  "exists fs1 PHYSICS_FILENAME \<and> raised (main fs1) = None \<and>
   ''Biology_TopicLookup.json'' \<in> set (other_files (sort (glob fs1))) \<and>
   load_json fs1 ''Biology_TopicLookup.json'' = Inr other1 \<and>
   (JStr ''U1'', JStr ''T1'', JObj [(''skillCd'', JStr ''S1'')]) \<in> set (doc_skills other1) \<and>
   valid_entry (JStr ''U1'', JStr ''T1'', JObj [(''skillCd'', JStr ''S1'')]) \<and>
   (\<exists>out. map_of (files (main fs1)) OUTPUT_FILENAME = Some (Content out) \<and>
      (\<forall>e' \<in> set (doc_skills out).
          entry_sig e' \<noteq> entry_sig (JStr ''U1'', JStr ''T1'', JObj [(''skillCd'', JStr ''S1'')])))"
proof -
  have h1: "exists fs1 PHYSICS_FILENAME" by code_simp
  have h2: "raised (main fs1) = None" by code_simp
  have h3: "''Biology_TopicLookup.json'' \<in> set (other_files (sort (glob fs1)))" by code_simp
  have h4: "load_json fs1 ''Biology_TopicLookup.json'' = Inr other1" by code_simp
  have h5: "(JStr ''U1'', JStr ''T1'', JObj [(''skillCd'', JStr ''S1'')]) \<in> set (doc_skills other1)"
    by code_simp
  have h6: "valid_entry (JStr ''U1'', JStr ''T1'', JObj [(''skillCd'', JStr ''S1'')])" by code_simp
  from C1_other_signature_not_in_output [OF h1 h2 h3 h4 h5 h6] h1 h2 h3 h4 h5 h6 show ?thesis by blast
qed

text \<open>
  Claim C2. An entry one of whose three codes is missing or empty never enters the
  aggregated set: in the loop over the skills of an other file it leaves the state as it
  is. In a run in which the base file exists and nothing is raised, such an entry of the
  base file is in the written document, and the entries with a missing or empty code of
  the written document are those of the base file, in the same order.
\<close>

theorem C2_invalid_entry_never_added_always_kept:
  assumes "\<not> valid_entry (u_cd, t_cd, skill)"
  shows "seen_skills u_cd t_cd (skill # skills) st =
           (if is_dict skill then seen_skills u_cd t_cd skills st else Inl AttributeError) \<and>
         (exists fs PHYSICS_FILENAME \<and> raised (main fs) = None \<and>
          load_json fs PHYSICS_FILENAME = Inr base \<and> (u_cd, t_cd, skill) \<in> set (doc_skills base) \<longrightarrow>
            (\<exists>out. map_of (files (main fs)) OUTPUT_FILENAME = Some (Content out) \<and>
                   (u_cd, t_cd, skill) \<in> set (doc_skills out) \<and>
                   filter (\<lambda>e. \<not> valid_entry e) (doc_skills out) =
                   filter (\<lambda>e. \<not> valid_entry e) (doc_skills base)))"
proof -
  have A: "seen_skills u_cd t_cd (skill # skills) st =
           (if is_dict skill then seen_skills u_cd t_cd skills st else Inl AttributeError)"
  proof (cases "is_dict skill")
    case False
    then show ?thesis by (cases skill) auto
  next
    case True
    then have "py_get skill ''skillCd'' JNull = Inr (field skill ''skillCd'' JNull)"
      by (rule py_get_dict)
    with assms True show ?thesis by auto
  qed
  have B: "\<exists>out. map_of (files (main fs)) OUTPUT_FILENAME = Some (Content out) \<and>
                   (u_cd, t_cd, skill) \<in> set (doc_skills out) \<and>
                   filter (\<lambda>e. \<not> valid_entry e) (doc_skills out) =
                   filter (\<lambda>e. \<not> valid_entry e) (doc_skills base)"
    if ex: "exists fs PHYSICS_FILENAME" and rn: "raised (main fs) = None"
      and l: "load_json fs PHYSICS_FILENAME = Inr base"
      and m: "(u_cd, t_cd, skill) \<in> set (doc_skills base)"
  proof -
    let ?seen = "loaded_sigs fs (other_files (sort (glob fs)))"
    let ?out = "new_data (kept_units ?seen (doc_units base))"
    from run_output [OF ex rn] l have ok: "ok_doc base"
      and out: "map_of (files (main fs)) OUTPUT_FILENAME = Some (Content ?out)"
      by auto
    have ds: "doc_skills ?out = filter (\<lambda>e. \<not> duplicate ?seen e) (doc_skills base)"
      by (rule doc_skills_output [OF ok])
    have "(u_cd, t_cd, skill) \<in> set (doc_skills ?out)"
      using m assms by (simp add: ds invalid_not_duplicate)
    moreover have "filter (\<lambda>e. \<not> valid_entry e) (doc_skills ?out) =
                   filter (\<lambda>e. \<not> valid_entry e) (doc_skills base)"
      unfolding ds filter_filter
      by (rule filter_cong) (auto dest: invalid_not_duplicate)
    ultimately show ?thesis using out by blast
  qed
  from A B show ?thesis by blast
qed

theorem C2_invalid_entry_never_added_always_kept_witness:
  "\<not> valid_entry (JNull, JStr ''T9'', skill1) \<and>
   seen_skills JNull (JStr ''T9'') [skill1]
       \<lparr>seen_signatures = {}, other_entry_count = 0, warned = []\<rparr> =
     Inr \<lparr>seen_signatures = {}, other_entry_count = 0, warned = []\<rparr> \<and>
   exists fs1 PHYSICS_FILENAME \<and> raised (main fs1) = None \<and>
   load_json fs1 PHYSICS_FILENAME = Inr base1 \<and>
   (JNull, JStr ''T9'', skill1) \<in> set (doc_skills base1) \<and>
   (\<exists>out. map_of (files (main fs1)) OUTPUT_FILENAME = Some (Content out) \<and>
          (JNull, JStr ''T9'', skill1) \<in> set (doc_skills out) \<and>
          filter (\<lambda>e. \<not> valid_entry e) (doc_skills out) =
          filter (\<lambda>e. \<not> valid_entry e) (doc_skills base1))"
proof -
  have h0: "\<not> valid_entry (JNull, JStr ''T9'', skill1)" by code_simp
  have h1: "exists fs1 PHYSICS_FILENAME" by code_simp
  have h2: "raised (main fs1) = None" by code_simp
  have h3: "load_json fs1 PHYSICS_FILENAME = Inr base1" by code_simp
  have h4: "(JNull, JStr ''T9'', skill1) \<in> set (doc_skills base1)" by code_simp
  have h5: "is_dict skill1" by code_simp
  from C2_invalid_entry_never_added_always_kept [OF h0, of "[]" "\<lparr>seen_signatures = {}, other_entry_count = 0, warned = []\<rparr>" fs1 base1]
       h0 h1 h2 h3 h4 h5
  show ?thesis by simp
qed

text \<open>
  Claim C3, as amended. Take a run in which the base file exists, nothing is raised and
  there is no other file. If \<open>lookupData.units\<close> of the base document is a list in which
  every unit has at least one topic and every topic at least one skill, the written
  document is \<open>{"lookupData": {"units": units}}\<close> with exactly that list.
\<close>

theorem C3_no_other_files_identity:
  assumes "exists fs PHYSICS_FILENAME" and "raised (main fs) = None"
    and "other_files (sort (glob fs)) = []"
    and "load_json fs PHYSICS_FILENAME = Inr base" and "units_of base = Inr (JArr units)"
    and "\<forall>u \<in> set units. unit_topics u \<noteq> [] \<and> (\<forall>t \<in> set (unit_topics u). topic_skills t \<noteq> [])"
  shows "map_of (files (main fs)) OUTPUT_FILENAME =
           Some (Content (JObj [(''lookupData'', JObj [(''units'', JArr units)])]))"
proof -
  from assms(5) have "field (field base ''lookupData'' (JObj [])) ''units'' (JArr []) = JArr units"
    by (simp add: units_of_iff)
  then have du: "doc_units base = units" by (simp add: doc_units_def elems_def)
  from run_output [OF assms(1,2)] assms(3,4) have ok: "ok_doc base"
    and out: "map_of (files (main fs)) OUTPUT_FILENAME =
                Some (Content (new_data (kept_units (loaded_sigs fs []) (doc_units base))))"
    by auto
  from ok du have oku: "\<forall>u \<in> set units. ok_unit u" by (simp add: ok_doc_def)
  have "loaded_sigs fs [] = {}" by (simp add: loaded_sigs_def)
  with out du kept_units_empty [OF oku assms(6)] show ?thesis by (simp add: new_data_def)
qed

theorem C3_no_other_files_identity_witness:
  "exists fs2 PHYSICS_FILENAME \<and> raised (main fs2) = None \<and> other_files (sort (glob fs2)) = [] \<and>
   load_json fs2 PHYSICS_FILENAME = Inr base1 \<and> units_of base1 = Inr (JArr [unit1, unit9]) \<and>
   list_all (\<lambda>u. unit_topics u \<noteq> [] \<and> list_all (\<lambda>t. topic_skills t \<noteq> []) (unit_topics u))
     [unit1, unit9] \<and>
   map_of (files (main fs2)) OUTPUT_FILENAME =
     Some (Content (JObj [(''lookupData'', JObj [(''units'', JArr [unit1, unit9])])]))"
proof -
  have h1: "exists fs2 PHYSICS_FILENAME" by code_simp
  have h2: "raised (main fs2) = None" by code_simp
  have h3: "other_files (sort (glob fs2)) = []" by code_simp
  have h4: "load_json fs2 PHYSICS_FILENAME = Inr base1" by code_simp
  have h5: "units_of base1 = Inr (JArr [unit1, unit9])" by code_simp
  have h6: "list_all (\<lambda>u. unit_topics u \<noteq> [] \<and> list_all (\<lambda>t. topic_skills t \<noteq> []) (unit_topics u))
     [unit1, unit9]" by code_simp
  from h6 have h6': "\<forall>u \<in> set [unit1, unit9].
      unit_topics u \<noteq> [] \<and> (\<forall>t \<in> set (unit_topics u). topic_skills t \<noteq> [])"
    by (simp add: list_all_iff)
  from C3_no_other_files_identity [OF h1 h2 h3 h4 h5 h6'] h1 h2 h3 h4 h5 h6 show ?thesis by simp
qed

text \<open>
  As the claim is worded it fails: the filter drops a unit without topics (and a topic
  without skills) also when there is no other file. The base document of \<open>fs3\<close> has one
  unit, with an empty topics list; the run completes and writes an empty units list.
\<close>

theorem C3_empty_unit_dropped_counterexample:
  "exists fs3 PHYSICS_FILENAME \<and> raised (main fs3) = None \<and> other_files (sort (glob fs3)) = [] \<and>
   load_json fs3 PHYSICS_FILENAME = Inr base3 \<and> units_of base3 = Inr (JArr [unit3]) \<and>
   map_of (files (main fs3)) OUTPUT_FILENAME =
     Some (Content (JObj [(''lookupData'', JObj [(''units'', JArr [])])])) \<and>
   JArr [] \<noteq> JArr [unit3]"
  by code_simp

text \<open>
  Claim C4. In a run in which the base file exists and nothing is raised, the units of the
  written document are, in order, the base units whose filtered topics are not empty,
  each with its \<open>topics\<close> replaced by the filtered topics; the filtered topics of a unit
  are, in order, its topics whose filtered skills are not empty, each with its \<open>skills\<close>
  replaced by the filtered skills. So no unit of the written document has an empty topics
  list and no topic of it an empty skills list.
\<close>

theorem C4_no_empty_topic_or_unit:
  assumes "exists fs PHYSICS_FILENAME" and "raised (main fs) = None"
    and "seen = loaded_sigs fs (other_files (sort (glob fs)))"
  shows "\<exists>base out. load_json fs PHYSICS_FILENAME = Inr base \<and>
           map_of (files (main fs)) OUTPUT_FILENAME = Some (Content out) \<and>
           doc_units out =
             map (\<lambda>u. with_field u ''topics'' (JArr (kept_topics seen u)))
               (filter (\<lambda>u. kept_topics seen u \<noteq> []) (doc_units base)) \<and>
           (\<forall>u \<in> set (doc_units base).
              kept_topics seen u =
                map (\<lambda>t. with_field t ''skills'' (JArr (kept_skills seen (field u ''unitCd'' JNull) t)))
                  (filter (\<lambda>t. kept_skills seen (field u ''unitCd'' JNull) t \<noteq> []) (unit_topics u))) \<and>
           (\<forall>u \<in> set (doc_units out).
              unit_topics u \<noteq> [] \<and> (\<forall>t \<in> set (unit_topics u). topic_skills t \<noteq> []))"
proof -
  from run_output [OF assms(1,2)] assms(3) obtain base where l: "load_json fs PHYSICS_FILENAME = Inr base"
    and ok: "ok_doc base"
    and out: "map_of (files (main fs)) OUTPUT_FILENAME =
                Some (Content (new_data (kept_units seen (doc_units base))))"
    by blast
  from ok have oku: "\<forall>u \<in> set (doc_units base). ok_unit u" by (simp add: ok_doc_def)
  let ?out = "new_data (kept_units seen (doc_units base))"
  have a: "doc_units ?out =
             map (\<lambda>u. with_field u ''topics'' (JArr (kept_topics seen u)))
               (filter (\<lambda>u. kept_topics seen u \<noteq> []) (doc_units base))"
    by (simp add: doc_units_new_data kept_units_def)
  have b: "\<forall>u \<in> set (doc_units base).
              kept_topics seen u =
                map (\<lambda>t. with_field t ''skills'' (JArr (kept_skills seen (field u ''unitCd'' JNull) t)))
                  (filter (\<lambda>t. kept_skills seen (field u ''unitCd'' JNull) t \<noteq> []) (unit_topics u))"
    by (simp add: kept_topics_def)
  have c: "\<forall>u \<in> set (doc_units ?out).
              unit_topics u \<noteq> [] \<and> (\<forall>t \<in> set (unit_topics u). topic_skills t \<noteq> [])"
    using kept_units_nonempty [OF oku] by (simp add: doc_units_new_data)
  from l out a b c show ?thesis by blast
qed

theorem C4_no_empty_topic_or_unit_witness:
  "exists fs1 PHYSICS_FILENAME \<and> raised (main fs1) = None \<and>
   {(KStr ''U1'', KStr ''T1'', KStr ''S1''), (KStr ''U1'', KStr ''T2'', KStr ''S1'')} =
     loaded_sigs fs1 (other_files (sort (glob fs1))) \<and>
   (\<exists>base out. load_json fs1 PHYSICS_FILENAME = Inr base \<and>
      map_of (files (main fs1)) OUTPUT_FILENAME = Some (Content out) \<and>
      doc_units out =
        map (\<lambda>u. with_field u ''topics''
                   (JArr (kept_topics {(KStr ''U1'', KStr ''T1'', KStr ''S1''),
                                       (KStr ''U1'', KStr ''T2'', KStr ''S1'')} u)))
          (filter (\<lambda>u. kept_topics {(KStr ''U1'', KStr ''T1'', KStr ''S1''),
                                     (KStr ''U1'', KStr ''T2'', KStr ''S1'')} u \<noteq> [])
             (doc_units base)) \<and>
      list_all (\<lambda>u. unit_topics u \<noteq> [] \<and> list_all (\<lambda>t. topic_skills t \<noteq> []) (unit_topics u))
        (doc_units out))"
proof -
  let ?seen = "{(KStr ''U1'', KStr ''T1'', KStr ''S1''), (KStr ''U1'', KStr ''T2'', KStr ''S1'')}"
  have h1: "exists fs1 PHYSICS_FILENAME" by code_simp
  have h2: "raised (main fs1) = None" by code_simp
  have o: "other_files (sort (glob fs1)) = [''Biology_TopicLookup.json'', ''Broken_TopicLookup.json'']"
    by code_simp
  have l1: "load_json fs1 ''Biology_TopicLookup.json'' = Inr other1" by code_simp
  have l2: "load_json fs1 ''Broken_TopicLookup.json'' = Inl LoadError" by code_simp
  have d: "doc_skills other1 =
             [(JStr ''U1'', JStr ''T1'', JObj [(''skillCd'', JStr ''S1'')]),
              (JStr ''U1'', JStr ''T2'', JObj [(''skillCd'', JStr ''S1'')])]"
    by code_simp
  have h3: "?seen = loaded_sigs fs1 (other_files (sort (glob fs1)))"
    unfolding o
    by (simp add: loaded_sigs_def l1 l2 valid_sigs_def d entry_sigs_Cons entry_sigs_Nil field_def sig_key_def
          insert_commute)
  from C4_no_empty_topic_or_unit [OF h1 h2 h3] h1 h2 h3 show ?thesis
    by (simp add: list_all_iff) blast
qed

text \<open>
  Claim C5. Filtering is idempotent: when the filter of a base document against a set of
  signatures succeeds, the filter of the document built from its result against the same
  set succeeds too, removes no skill, and returns the same units (so it drops no topic
  and no unit).
\<close>

theorem C5_filter_idempotent:
  assumes "filter_physics seen data = Inr ((new_units, c), n)"
  shows "filter_physics seen (new_data new_units) =
           Inr ((new_units,
                 \<lparr>removed_skills = 0,
                  original_topics_count = int (length (concat (map unit_topics new_units))),
                  original_skills_count = int (length (entries new_units))\<rparr>),
                int (length new_units))"
proof -
  from assms have ok: "ok_doc data" and nu: "new_units = kept_units seen (doc_units data)"
    by (simp_all add: filter_physics_iff)
  from ok have oku: "\<forall>u \<in> set (doc_units data). ok_unit u" by (simp add: ok_doc_def)
  have ok': "ok_doc (new_data new_units)" unfolding nu by (rule ok_doc_new_data [OF oku])
  have k: "kept_units seen new_units = new_units" unfolding nu by (rule kept_units_idem [OF oku])
  have "entries new_units = filter (\<lambda>e. \<not> duplicate seen e) (entries (doc_units data))"
    unfolding nu by (rule entries_kept_units [OF oku])
  then have r: "filter (duplicate seen) (entries new_units) = []" by (simp add: filter_empty_conv)
  show ?thesis
    by (simp add: filter_physics_iff ok' doc_units_new_data k doc_skills_def r)
qed

theorem C5_filter_idempotent_witness:
  "filter_physics {(KStr ''U1'', KStr ''T1'', KStr ''S1''), (KStr ''U1'', KStr ''T2'', KStr ''S1'')} base1 =
     Inr ((units1_out,
           \<lparr>removed_skills = 2, original_topics_count = 3, original_skills_count = 5\<rparr>), 2) \<and>
   filter_physics {(KStr ''U1'', KStr ''T1'', KStr ''S1''), (KStr ''U1'', KStr ''T2'', KStr ''S1'')}
       (new_data units1_out) =
     Inr ((units1_out,
           \<lparr>removed_skills = 0,
            original_topics_count = int (length (concat (map unit_topics units1_out))),
            original_skills_count = int (length (entries units1_out))\<rparr>),
          int (length units1_out))"
proof -
  have h: "filter_physics {(KStr ''U1'', KStr ''T1'', KStr ''S1''), (KStr ''U1'', KStr ''T2'', KStr ''S1'')} base1 =
     Inr ((units1_out,
           \<lparr>removed_skills = 2, original_topics_count = 3, original_skills_count = 5\<rparr>), 2)"
    by code_simp
  from C5_filter_idempotent [OF h] h show ?thesis by simp
qed

text \<open>
  Claim C6. In a run in which the base file exists and nothing is raised, the units of the
  written document come, in order, from a subsequence of the base units. A written unit
  has the keys of its base unit in the same order and the same value under every key but
  \<open>topics\<close>; its topics come, in order, from a subsequence of the base unit's topics;
  a written topic has the keys of its base topic in the same order and the same value
  under every key but \<open>skills\<close>, and its skills are a subsequence of the base topic's
  skills, each skill as it was.
\<close>

theorem C6_kept_fields_and_order:
  assumes "exists fs PHYSICS_FILENAME" and "raised (main fs) = None"
  shows "\<exists>base out. load_json fs PHYSICS_FILENAME = Inr base \<and>
           map_of (files (main fs)) OUTPUT_FILENAME = Some (Content out) \<and>
           list_emb unit_from (doc_units out) (doc_units base)"
proof -
  let ?seen = "loaded_sigs fs (other_files (sort (glob fs)))"
  from run_output [OF assms] obtain base where l: "load_json fs PHYSICS_FILENAME = Inr base"
    and ok: "ok_doc base"
    and out: "map_of (files (main fs)) OUTPUT_FILENAME =
                Some (Content (new_data (kept_units ?seen (doc_units base))))"
    by blast
  from ok have oku: "\<forall>u \<in> set (doc_units base). ok_unit u" by (simp add: ok_doc_def)
  have "list_emb unit_from (kept_units ?seen (doc_units base)) (doc_units base)"
    unfolding kept_units_def
    by (rule list_emb_map_filter) (use oku in \<open>auto intro: unit_from_kept\<close>)
  then have "list_emb unit_from (doc_units (new_data (kept_units ?seen (doc_units base)))) (doc_units base)"
    by (simp add: doc_units_new_data)
  with l out show ?thesis by blast
qed

theorem C6_kept_fields_and_order_witness:
  "exists fs1 PHYSICS_FILENAME \<and> raised (main fs1) = None \<and>
   (\<exists>base out. load_json fs1 PHYSICS_FILENAME = Inr base \<and>
           map_of (files (main fs1)) OUTPUT_FILENAME = Some (Content out) \<and>
           list_emb unit_from (doc_units out) (doc_units base))"
proof -
  have h1: "exists fs1 PHYSICS_FILENAME" by code_simp
  have h2: "raised (main fs1) = None" by code_simp
  from C6_kept_fields_and_order [OF h1 h2] h1 h2 show ?thesis by blast
qed

text \<open>
  Claim C7. If the base file does not exist in the directory, or no name there matches
  \<open>*TopicLookup.json\<close>, the run prints one of the two error lines, raises nothing and
  leaves the directory as it was: no output file is written.
\<close>

theorem C7_config_error_writes_nothing:
  "\<not> exists fs PHYSICS_FILENAME \<or> glob fs = [] \<Longrightarrow>
     files (main fs) = fs \<and> raised (main fs) = None \<and>
     (console (main fs) = [ErrorPhysicsNotFound] \<or> console (main fs) = [ErrorNoFiles])"
  by (auto simp: main_def)

theorem C7_config_error_writes_nothing_witness:
  "\<not> exists fs4 PHYSICS_FILENAME \<and> glob fs4 = [''Biology_TopicLookup.json''] \<and>
   files (main fs4) = fs4 \<and> raised (main fs4) = None \<and> console (main fs4) = [ErrorPhysicsNotFound]"
proof -
  have h: "\<not> exists fs4 PHYSICS_FILENAME" by code_simp
  have g: "glob fs4 = [''Biology_TopicLookup.json'']" by code_simp
  have c: "console (main fs4) \<noteq> [ErrorNoFiles]" by code_simp
  from C7_config_error_writes_nothing [of fs4] h g c show ?thesis by simp
qed

text \<open>
  Claim C8. A load failure on an other file is recovered: the loop prints a warning and
  goes on with the remaining files from the same set of signatures, and a run that raises
  nothing shows the warning and writes its output. A load failure on the base file is not
  recovered: the run ends with an exception and the directory is as it was.
\<close>

theorem C8_parse_failures:
  "(load_json fs path = Inl e \<longrightarrow>
      seen_files fs (path # paths) st =
        seen_files fs paths (st\<lparr>warned := warned st @ [WarnSkipping path]\<rparr>)) \<and>
   (exists fs PHYSICS_FILENAME \<and> raised (main fs) = None \<and>
    path \<in> set (other_files (sort (glob fs))) \<and> load_json fs path = Inl e \<longrightarrow>
      WarnSkipping path \<in> set (console (main fs)) \<and> OutputWritten \<in> set (console (main fs)) \<and>
      (\<exists>out. map_of (files (main fs)) OUTPUT_FILENAME = Some (Content out))) \<and>
   (exists fs PHYSICS_FILENAME \<and> load_json fs PHYSICS_FILENAME = Inl e' \<longrightarrow>
      raised (main fs) \<noteq> None \<and> files (main fs) = fs)"
proof -
  let ?st0 = "\<lparr>seen_signatures = {}, other_entry_count = 0, warned = []\<rparr>"
  let ?others = "other_files (sort (glob fs))"
  let ?out = "[InfoFound (int (length (sort (glob fs)))), InfoUsing (int (length ?others))]
                @ map InfoName ?others"
  have A: "seen_files fs (path # paths) st =
        seen_files fs paths (st\<lparr>warned := warned st @ [WarnSkipping path]\<rparr>)"
    if "load_json fs path = Inl e"
    using that by simp
  have B: "WarnSkipping path \<in> set (console (main fs)) \<and> OutputWritten \<in> set (console (main fs)) \<and>
      (\<exists>out. map_of (files (main fs)) OUTPUT_FILENAME = Some (Content out))"
    if ex: "exists fs PHYSICS_FILENAME" and rn: "raised (main fs) = None"
      and p: "path \<in> set ?others" and l: "load_json fs path = Inl e"
  proof -
    from l have e: "e = LoadError" by (auto simp: load_json_def split: option.splits stored.splits)
    from main_dedupe [OF ex rn] obtain st where sf: "seen_files fs ?others ?st0 = (None, st)"
      by blast
    let ?pre = "?out @ warned st @
                    [InfoCollected (other_entry_count st) (int (card (seen_signatures st)))]"
    from sf ex have m: "main fs = dedupe fs ?pre (seen_signatures st)"
      by (simp add: main_exists Let_def del: length_sort)
    from seen_files_None [OF sf] p l e have w: "WarnSkipping path \<in> set (warned st)" by auto
    from rn m have "raised (dedupe fs ?pre (seen_signatures st)) = None" by simp
    from dedupe_done [OF this] m w show ?thesis by (auto simp: map_of_write_file)
  qed
  have C: "raised (main fs) \<noteq> None \<and> files (main fs) = fs"
    if ex: "exists fs PHYSICS_FILENAME" and l: "load_json fs PHYSICS_FILENAME = Inl e'"
  proof -
    obtain r st where sf: "seen_files fs ?others ?st0 = (r, st)"
      by (cases "seen_files fs ?others ?st0")
    show ?thesis
    proof (cases r)
      case (Some x)
      with sf ex show ?thesis by (simp add: main_exists Let_def del: length_sort)
    next
      case None
      with sf ex l show ?thesis
        by (simp add: main_exists Let_def dedupe_load_fails del: length_sort)
    qed
  qed
  from A B C show ?thesis by blast
qed

theorem C8_parse_failures_witness:
  "load_json fs1 ''Broken_TopicLookup.json'' = Inl LoadError \<and>
   seen_files fs1 [''Broken_TopicLookup.json'']
       \<lparr>seen_signatures = {}, other_entry_count = 0, warned = []\<rparr> =
     seen_files fs1 []
       \<lparr>seen_signatures = {}, other_entry_count = 0, warned = [WarnSkipping ''Broken_TopicLookup.json'']\<rparr> \<and>
   exists fs1 PHYSICS_FILENAME \<and> raised (main fs1) = None \<and>
   ''Broken_TopicLookup.json'' \<in> set (other_files (sort (glob fs1))) \<and>
   WarnSkipping ''Broken_TopicLookup.json'' \<in> set (console (main fs1)) \<and>
   OutputWritten \<in> set (console (main fs1)) \<and>
   (\<exists>out. map_of (files (main fs1)) OUTPUT_FILENAME = Some (Content out)) \<and>
   exists fs5 PHYSICS_FILENAME \<and> load_json fs5 PHYSICS_FILENAME = Inl LoadError \<and>
   raised (main fs5) \<noteq> None \<and> files (main fs5) = fs5"
proof -
  have h1: "load_json fs1 ''Broken_TopicLookup.json'' = Inl LoadError" by code_simp
  have h2: "exists fs1 PHYSICS_FILENAME" by code_simp
  have h3: "raised (main fs1) = None" by code_simp
  have h4: "''Broken_TopicLookup.json'' \<in> set (other_files (sort (glob fs1)))" by code_simp
  have h5: "exists fs5 PHYSICS_FILENAME" by code_simp
  have h6: "load_json fs5 PHYSICS_FILENAME = Inl LoadError" by code_simp
  from C8_parse_failures [of fs1 "''Broken_TopicLookup.json''" LoadError "[]"
                  "\<lparr>seen_signatures = {}, other_entry_count = 0, warned = []\<rparr>" LoadError]
       C8_parse_failures [of fs5 "''Broken_TopicLookup.json''" LoadError "[]"
                  "\<lparr>seen_signatures = {}, other_entry_count = 0, warned = []\<rparr>" LoadError]
       h1 h2 h3 h4 h5 h6
  show ?thesis by simp
qed

text \<open>
  Claim C9. The base file is never among the other files, so its own signatures do not
  enter the aggregated set. In a run in which the base file exists and nothing is raised,
  the skills of the base file with a signature that no other loaded file has are all in
  the written document, in the same order, however many of them share that signature:
  skills are removed for occurring in other files only, never for occurring twice in the
  base file.
\<close>

theorem C9_base_signatures_not_aggregated:
  assumes "exists fs PHYSICS_FILENAME" and "raised (main fs) = None"
    and "sg \<notin> loaded_sigs fs (other_files (sort (glob fs)))"
  shows "PHYSICS_FILENAME \<notin> set (other_files (sort (glob fs))) \<and>
         (\<exists>base out. load_json fs PHYSICS_FILENAME = Inr base \<and>
             map_of (files (main fs)) OUTPUT_FILENAME = Some (Content out) \<and>
             filter (\<lambda>e. entry_sig e = Inr sg) (doc_skills out) =
             filter (\<lambda>e. entry_sig e = Inr sg) (doc_skills base))"
proof -
  let ?seen = "loaded_sigs fs (other_files (sort (glob fs)))"
  from run_output [OF assms(1,2)] obtain base where l: "load_json fs PHYSICS_FILENAME = Inr base"
    and ok: "ok_doc base"
    and out: "map_of (files (main fs)) OUTPUT_FILENAME =
                Some (Content (new_data (kept_units ?seen (doc_units base))))"
    by blast
  have "filter (\<lambda>e. entry_sig e = Inr sg) (doc_skills (new_data (kept_units ?seen (doc_units base)))) =
        filter (\<lambda>e. entry_sig e = Inr sg) (doc_skills base)"
    unfolding doc_skills_output [OF ok] filter_filter
    by (rule filter_cong) (use assms(3) in \<open>auto simp: duplicate_def\<close>)
  with l out physics_not_other show ?thesis by blast
qed

theorem C9_base_signatures_not_aggregated_witness:
  "exists fs1 PHYSICS_FILENAME \<and> raised (main fs1) = None \<and>
   (KStr ''U1'', KStr ''T1'', KStr ''S2'') \<notin> loaded_sigs fs1 (other_files (sort (glob fs1))) \<and>
   filter (\<lambda>e. entry_sig e = Inr (KStr ''U1'', KStr ''T1'', KStr ''S2'')) (doc_skills base1) =
     [(JStr ''U1'', JStr ''T1'', skill2), (JStr ''U1'', JStr ''T1'', skill2b)] \<and>
   PHYSICS_FILENAME \<notin> set (other_files (sort (glob fs1))) \<and>
   (\<exists>base out. load_json fs1 PHYSICS_FILENAME = Inr base \<and>
       map_of (files (main fs1)) OUTPUT_FILENAME = Some (Content out) \<and>
       filter (\<lambda>e. entry_sig e = Inr (KStr ''U1'', KStr ''T1'', KStr ''S2'')) (doc_skills out) =
       filter (\<lambda>e. entry_sig e = Inr (KStr ''U1'', KStr ''T1'', KStr ''S2'')) (doc_skills base))"
proof -
  have h1: "exists fs1 PHYSICS_FILENAME" by code_simp
  have h2: "raised (main fs1) = None" by code_simp
  have o: "other_files (sort (glob fs1)) = [''Biology_TopicLookup.json'', ''Broken_TopicLookup.json'']"
    by code_simp
  have l1: "load_json fs1 ''Biology_TopicLookup.json'' = Inr other1" by code_simp
  have l2: "load_json fs1 ''Broken_TopicLookup.json'' = Inl LoadError" by code_simp
  have d: "doc_skills other1 =
             [(JStr ''U1'', JStr ''T1'', JObj [(''skillCd'', JStr ''S1'')]),
              (JStr ''U1'', JStr ''T2'', JObj [(''skillCd'', JStr ''S1'')])]"
    by code_simp
  have h3: "(KStr ''U1'', KStr ''T1'', KStr ''S2'') \<notin> loaded_sigs fs1 (other_files (sort (glob fs1)))"
    unfolding o by (simp add: loaded_sigs_def l1 l2 valid_sigs_def d entry_sigs_Cons entry_sigs_Nil field_def sig_key_def)
  have h4: "filter (\<lambda>e. entry_sig e = Inr (KStr ''U1'', KStr ''T1'', KStr ''S2'')) (doc_skills base1) =
     [(JStr ''U1'', JStr ''T1'', skill2), (JStr ''U1'', JStr ''T1'', skill2b)]"
    by code_simp
  from C9_base_signatures_not_aggregated [OF h1 h2 h3] h1 h2 h3 h4 show ?thesis by blast
qed

text \<open>
  Claim C10. A run in which the base file exists and nothing is raised prints the summary.
  Whenever the summary is printed, the base file has loaded and the output file has been
  written, and the summary's counts are those of the two documents: the units, topics and
  skills of the base document before, those of the written document after, and for the
  removed skills the number of skills of the base document whose signature is in the
  aggregated set. The skills of the written document are the remaining skills of the base
  document, in order, so every skill of the base file is either counted as removed or
  present once in the output, and the removed count is the skills count before minus the
  skills count after.
\<close>

theorem C10_removed_is_before_minus_after:
  assumes "seen = loaded_sigs fs (other_files (sort (glob fs)))"
  shows "(exists fs PHYSICS_FILENAME \<and> raised (main fs) = None \<longrightarrow>
            (\<exists>ouc nuc otc ntc osc nsc rem.
                Summary ouc nuc otc ntc osc nsc rem \<in> set (console (main fs)))) \<and>
         (Summary ouc nuc otc ntc osc nsc rem \<in> set (console (main fs)) \<longrightarrow>
            (\<exists>base out.
                load_json fs PHYSICS_FILENAME = Inr base \<and>
                map_of (files (main fs)) OUTPUT_FILENAME = Some (Content out) \<and>
                ouc = int (length (doc_units base)) \<and>
                nuc = int (length (doc_units out)) \<and>
                otc = int (length (concat (map unit_topics (doc_units base)))) \<and>
                ntc = int (length (concat (map unit_topics (doc_units out)))) \<and>
                osc = int (length (doc_skills base)) \<and>
                nsc = int (length (doc_skills out)) \<and>
                rem = int (length (filter (duplicate seen) (doc_skills base))) \<and>
                doc_skills out = filter (\<lambda>e. \<not> duplicate seen e) (doc_skills base) \<and>
                rem = osc - nsc))"
proof -
  let ?st0 = "\<lparr>seen_signatures = {}, other_entry_count = 0, warned = []\<rparr>"
  let ?others = "other_files (sort (glob fs))"
  let ?out = "[InfoFound (int (length (sort (glob fs)))), InfoUsing (int (length ?others))]
                @ map InfoName ?others"
  let ?S = "Summary ouc nuc otc ntc osc nsc rem"
  have A: "\<exists>ouc nuc otc ntc osc nsc rem.
                Summary ouc nuc otc ntc osc nsc rem \<in> set (console (main fs))"
    if ex: "exists fs PHYSICS_FILENAME" and rn: "raised (main fs) = None"
  proof -
    from main_dedupe [OF ex rn] obtain out where m: "main fs = dedupe fs out seen"
      unfolding assms by blast
    with rn have "raised (dedupe fs out seen) = None" by simp
    from dedupe_done [OF this] obtain a b c d e f g where
      "console (dedupe fs out seen) = out @ [Summary a b c d e f g, OutputWritten]" by blast
    with m have "Summary a b c d e f g \<in> set (console (main fs))" by simp
    then show ?thesis by blast
  qed
  have B: "\<exists>base out.
                load_json fs PHYSICS_FILENAME = Inr base \<and>
                map_of (files (main fs)) OUTPUT_FILENAME = Some (Content out) \<and>
                ouc = int (length (doc_units base)) \<and>
                nuc = int (length (doc_units out)) \<and>
                otc = int (length (concat (map unit_topics (doc_units base)))) \<and>
                ntc = int (length (concat (map unit_topics (doc_units out)))) \<and>
                osc = int (length (doc_skills base)) \<and>
                nsc = int (length (doc_skills out)) \<and>
                rem = int (length (filter (duplicate seen) (doc_skills base))) \<and>
                doc_skills out = filter (\<lambda>e. \<not> duplicate seen e) (doc_skills base) \<and>
                rem = osc - nsc"
    if S: "?S \<in> set (console (main fs))"
  proof (cases "exists fs PHYSICS_FILENAME")
    case False
    then have "console (main fs) = [ErrorPhysicsNotFound]" by (simp add: main_def)
    with S show ?thesis by simp
  next
    case True
    obtain r st where sf: "seen_files fs ?others ?st0 = (r, st)"
      by (cases "seen_files fs ?others ?st0")
    from seen_files_warned [OF sf] have w: "set (warned st) \<subseteq> WarnSkipping ` set ?others" by simp
    have no_out: "?S \<notin> set ?out" by auto
    have no_w: "?S \<notin> set (warned st)" using w by auto
    show ?thesis
    proof (cases r)
      case (Some e)
      with sf True have "console (main fs) = ?out @ warned st"
        by (simp add: main_exists Let_def del: length_sort)
      with S no_out no_w show ?thesis by simp
    next
      case None
      let ?pre = "?out @ warned st @
                    [InfoCollected (other_entry_count st) (int (card (seen_signatures st)))]"
      from None sf have sf': "seen_files fs ?others ?st0 = (None, st)" by simp
      from seen_files_None [OF sf'] have sn: "seen_signatures st = seen" by (simp add: assms)
      from sf' True sn have m: "main fs = dedupe fs ?pre seen"
        by (simp add: main_exists Let_def del: length_sort)
      have no_pre: "?S \<notin> set ?pre" using no_w by auto
      show ?thesis
      proof (cases "raised (dedupe fs ?pre seen) = None")
        case False
        from dedupe_console [OF this] m S no_pre show ?thesis by simp
      next
        case True
        let ?doc = "new_data (kept_units seen (doc_units base))"
        from dedupe_done [OF True] obtain base where l: "load_json fs PHYSICS_FILENAME = Inr base"
          and ok: "ok_doc base"
          and f: "files (dedupe fs ?pre seen) =
                    write_file fs OUTPUT_FILENAME (Content (new_data (kept_units seen (doc_units base))))"
          and c: "console (dedupe fs ?pre seen) = ?pre @
               [Summary (int (length (doc_units base)))
                        (int (length (kept_units seen (doc_units base))))
                        (int (length (concat (map unit_topics (doc_units base)))))
                        (int (length (concat (map unit_topics (kept_units seen (doc_units base))))))
                        (int (length (doc_skills base)))
                        (int (length (entries (kept_units seen (doc_units base)))))
                        (int (length (filter (duplicate seen) (doc_skills base)))),
                OutputWritten]"
          by blast
        let ?o = "new_data (kept_units seen (doc_units base))"
        from S m c no_pre
        have ouc: "ouc = int (length (doc_units base))"
          and nuc: "nuc = int (length (kept_units seen (doc_units base)))"
          and otc: "otc = int (length (concat (map unit_topics (doc_units base))))"
          and ntc: "ntc = int (length (concat (map unit_topics (kept_units seen (doc_units base)))))"
          and osc: "osc = int (length (doc_skills base))"
          and nsc: "nsc = int (length (entries (kept_units seen (doc_units base))))"
          and rem: "rem = int (length (filter (duplicate seen) (doc_skills base)))"
          by auto
        have du: "doc_units ?o = kept_units seen (doc_units base)" by (rule doc_units_new_data)
        have ds: "doc_skills ?o = filter (\<lambda>e. \<not> duplicate seen e) (doc_skills base)"
          by (rule doc_skills_output [OF ok])
        have de: "doc_skills ?o = entries (kept_units seen (doc_units base))"
          by (simp add: doc_skills_def du)
        have "length (filter (duplicate seen) (doc_skills base)) +
              length (filter (\<lambda>e. \<not> duplicate seen e) (doc_skills base)) =
              length (doc_skills base)"
          by (rule sum_length_filter_compl)
        with osc nsc rem de ds have diff: "rem = osc - nsc" by simp
        from m f have w: "map_of (files (main fs)) OUTPUT_FILENAME = Some (Content ?o)"
          by (simp add: map_of_write_file)
        from l w ouc nuc otc ntc osc nsc rem ds diff du de show ?thesis
          by (intro exI [of _ base] exI [of _ ?o]) simp
      qed
    qed
  qed
  from A B show ?thesis by blast
qed

theorem C10_removed_is_before_minus_after_witness:
  "{(KStr ''U1'', KStr ''T1'', KStr ''S1''), (KStr ''U1'', KStr ''T2'', KStr ''S1'')} =
     loaded_sigs fs1 (other_files (sort (glob fs1))) \<and>
   exists fs1 PHYSICS_FILENAME \<and> raised (main fs1) = None \<and>
   Summary 2 2 3 2 5 3 2 \<in> set (console (main fs1)) \<and>
   (\<exists>base out.
       load_json fs1 PHYSICS_FILENAME = Inr base \<and>
       map_of (files (main fs1)) OUTPUT_FILENAME = Some (Content out) \<and>
       (2::int) = int (length (doc_units base)) \<and>
       (2::int) = int (length (doc_units out)) \<and>
       (3::int) = int (length (concat (map unit_topics (doc_units base)))) \<and>
       (2::int) = int (length (concat (map unit_topics (doc_units out)))) \<and>
       (5::int) = int (length (doc_skills base)) \<and>
       (3::int) = int (length (doc_skills out)) \<and>
       (2::int) = int (length (filter (duplicate {(KStr ''U1'', KStr ''T1'', KStr ''S1''),
                                                   (KStr ''U1'', KStr ''T2'', KStr ''S1'')})
                                 (doc_skills base))) \<and>
       doc_skills out = filter (\<lambda>e. \<not> duplicate {(KStr ''U1'', KStr ''T1'', KStr ''S1''),
                                                    (KStr ''U1'', KStr ''T2'', KStr ''S1'')} e)
                          (doc_skills base) \<and>
       (2::int) = 5 - 3)"
proof -
  let ?seen = "{(KStr ''U1'', KStr ''T1'', KStr ''S1''), (KStr ''U1'', KStr ''T2'', KStr ''S1'')}"
  have h1: "exists fs1 PHYSICS_FILENAME" by code_simp
  have h2: "raised (main fs1) = None" by code_simp
  have o: "other_files (sort (glob fs1)) = [''Biology_TopicLookup.json'', ''Broken_TopicLookup.json'']"
    by code_simp
  have l1: "load_json fs1 ''Biology_TopicLookup.json'' = Inr other1" by code_simp
  have l2: "load_json fs1 ''Broken_TopicLookup.json'' = Inl LoadError" by code_simp
  have d: "doc_skills other1 =
             [(JStr ''U1'', JStr ''T1'', JObj [(''skillCd'', JStr ''S1'')]),
              (JStr ''U1'', JStr ''T2'', JObj [(''skillCd'', JStr ''S1'')])]"
    by code_simp
  have h3: "?seen = loaded_sigs fs1 (other_files (sort (glob fs1)))"
    unfolding o
    by (simp add: loaded_sigs_def l1 l2 valid_sigs_def d entry_sigs_Cons entry_sigs_Nil field_def sig_key_def
          insert_commute)
  have h4: "Summary 2 2 3 2 5 3 2 \<in> set (console (main fs1))" by code_simp
  from C10_removed_is_before_minus_after [OF h3, of 2 2 3 2 5 3 2] h1 h2 h3 h4 show ?thesis by blast
qed

end
